theory Spec2Isabelle
  imports Main
begin

section \<open>The form validator (internal/validator/validator.go)\<close>

text \<open>
  A Go \<open>string\<close> is a sequence of bytes, which is what \<^typ>\<open>string\<close> is. The struct
  \<open>Validator\<close> has a slice of messages and a map from field names to messages. The map
  may be \<open>nil\<close> (the zero value of an embedded \<open>Validator\<close>), which is \<open>None\<close> here:
  \<open>len\<close> of a nil map is 0 and a lookup in it finds nothing.
\<close>

record Validator =
  NonFieldErrors :: "string list"
  FieldErrors :: "(string \<rightharpoonup> string) option"

text \<open>
  The forms of the handlers embed a \<open>Validator\<close>; an embedding struct is a record
  extension here, and the methods are defined on every extension (\<open>'a Validator_scheme\<close>),
  as Go promotes them to the embedding struct.
\<close>

text \<open>The zero value \<open>Validator{}\<close> of a freshly declared form.\<close>

definition zeroValidator :: Validator where
  "zeroValidator = \<lparr>NonFieldErrors = [], FieldErrors = None\<rparr>"

text \<open>Reading a Go map that may be nil: \<open>m[key]\<close> with the comma-ok form.\<close>

definition fieldErrorsMap :: "'a Validator_scheme \<Rightarrow> (string \<rightharpoonup> string)" where
  "fieldErrorsMap v = (case FieldErrors v of None \<Rightarrow> Map.empty | Some m \<Rightarrow> m)"

definition fieldError :: "'a Validator_scheme \<Rightarrow> string \<Rightarrow> string option" where
  "fieldError v key = fieldErrorsMap v key"

text \<open>\<open>return len(v.FieldErrors) == 0 && len(v.NonFieldErrors) == 0\<close>\<close>

definition Valid :: "'a Validator_scheme \<Rightarrow> bool" where
  "Valid v =
     ((case FieldErrors v of None \<Rightarrow> True | Some m \<Rightarrow> dom m = {}) \<and> NonFieldErrors v = [])"

text \<open>\<open>v.NonFieldErrors = append(v.NonFieldErrors, message)\<close>\<close>

definition AddNonFieldError :: "'a Validator_scheme \<Rightarrow> string \<Rightarrow> 'a Validator_scheme" where
  "AddNonFieldError v message = v\<lparr>NonFieldErrors := NonFieldErrors v @ [message]\<rparr>"

text \<open>
  The map is made when it is nil; the message is stored only when the key has none.
\<close>

definition AddFieldError :: "'a Validator_scheme \<Rightarrow> string \<Rightarrow> string \<Rightarrow> 'a Validator_scheme" where
  "AddFieldError v key message =
     (let m = (case FieldErrors v of None \<Rightarrow> Map.empty | Some m \<Rightarrow> m) in
      if m key = None then v\<lparr>FieldErrors := Some (m(key \<mapsto> message))\<rparr>
      else v\<lparr>FieldErrors := Some m\<rparr>)"

definition CheckField :: "'a Validator_scheme \<Rightarrow> bool \<Rightarrow> string \<Rightarrow> string \<Rightarrow> 'a Validator_scheme" where
  "CheckField v ok key message = (if \<not> ok then AddFieldError v key message else v)"

text \<open>
  A sequence of \<open>CheckField\<close> calls on one validator with one key: each call gives its
  condition and its message.
\<close>

fun checkFieldSeq :: "'a Validator_scheme \<Rightarrow> string \<Rightarrow> (bool \<times> string) list \<Rightarrow> 'a Validator_scheme" where
  "checkFieldSeq v key [] = v"
| "checkFieldSeq v key ((ok, message) # cs) = checkFieldSeq (CheckField v ok key message) key cs"

text \<open>Any sequence of the validator's mutating methods.\<close>

datatype validatorCall =
    CallAddNonFieldError string
  | CallAddFieldError string string
  | CallCheckField bool string string

fun applyCall :: "'a Validator_scheme \<Rightarrow> validatorCall \<Rightarrow> 'a Validator_scheme" where
  "applyCall v (CallAddNonFieldError message) = AddNonFieldError v message"
| "applyCall v (CallAddFieldError key message) = AddFieldError v key message"
| "applyCall v (CallCheckField ok key message) = CheckField v ok key message"

fun applyCalls :: "'a Validator_scheme \<Rightarrow> validatorCall list \<Rightarrow> 'a Validator_scheme" where
  "applyCalls v [] = v"
| "applyCalls v (c # cs) = applyCalls (applyCall v c) cs"


section \<open>Strings: the library functions the validator calls\<close>

text \<open>
  \<open>unicode/utf8\<close>, \<open>unicode\<close> and \<open>strings\<close> belong to the Go standard library, not to this
  repository. The definitions of this section follow the library's documented behaviour on
  byte strings: a rune is decoded from the front of a string as \<open>for range\<close> does, and an
  ill-formed byte decodes as \<open>RuneError\<close> of width 1.
\<close>

type_synonym rune = nat

definition RuneError :: rune where
  "RuneError = 0xFFFD"

definition isCont :: "char \<Rightarrow> bool" where
  "isCont c = (0x80 \<le> (of_char c :: nat) \<and> (of_char c :: nat) \<le> 0xBF)"

definition contBits :: "char \<Rightarrow> nat" where
  "contBits c = (of_char c :: nat) mod 64"

text \<open>The range accepted for the second byte, which depends on the first.\<close>

definition acceptLo :: "nat \<Rightarrow> nat" where
  "acceptLo b0 = (if b0 = 0xE0 then 0xA0 else if b0 = 0xF0 then 0x90 else 0x80)"

definition acceptHi :: "nat \<Rightarrow> nat" where
  "acceptHi b0 = (if b0 = 0xED then 0x9F else if b0 = 0xF4 then 0x8F else 0xBF)"

definition accepted :: "nat \<Rightarrow> char \<Rightarrow> bool" where
  "accepted b0 c = (acceptLo b0 \<le> (of_char c :: nat) \<and> (of_char c :: nat) \<le> acceptHi b0)"

text \<open>\<open>utf8.DecodeRuneInString\<close>: the first rune of the string and its width in bytes.\<close>

fun DecodeRuneInString :: "string \<Rightarrow> rune \<times> nat" where
  "DecodeRuneInString [] = (RuneError, 0)"
| "DecodeRuneInString (c0 # s) =
     (let b0 = (of_char c0 :: nat) in
      if b0 < 0x80 then (b0, 1)
      else if b0 < 0xC2 \<or> 0xF4 < b0 then (RuneError, 1)
      else if b0 < 0xE0 then
        (case s of
           c1 # _ \<Rightarrow>
             if accepted b0 c1 then ((b0 mod 32) * 64 + contBits c1, 2) else (RuneError, 1)
         | _ \<Rightarrow> (RuneError, 1))
      else if b0 < 0xF0 then
        (case s of
           c1 # c2 # _ \<Rightarrow>
             if accepted b0 c1 \<and> isCont c2
             then ((b0 mod 16) * 4096 + contBits c1 * 64 + contBits c2, 3)
             else (RuneError, 1)
         | _ \<Rightarrow> (RuneError, 1))
      else
        (case s of
           c1 # c2 # c3 # _ \<Rightarrow>
             if accepted b0 c1 \<and> isCont c2 \<and> isCont c3
             then ((b0 mod 8) * 262144 + contBits c1 * 4096 + contBits c2 * 64 + contBits c3, 4)
             else (RuneError, 1)
         | _ \<Rightarrow> (RuneError, 1)))"

lemma DecodeRuneInString_size_pos: "s \<noteq> [] \<Longrightarrow> 0 < snd (DecodeRuneInString s)"
  by (cases s) (auto simp: Let_def split: list.splits)

lemma DecodeRuneInString_size_le: "snd (DecodeRuneInString s) \<le> length s"
  by (cases s) (auto simp: Let_def split: list.splits)

text \<open>
  \<open>utf8.RuneCountInString\<close>: the loop steps over one rune at a time, by the width the
  decoder gives, and counts the steps.
\<close>

function RuneCountInString :: "string \<Rightarrow> nat" where
  "RuneCountInString s =
     (if s = [] then 0
      else Suc (RuneCountInString (drop (snd (DecodeRuneInString s)) s)))"
  by pat_completeness auto
termination
proof (relation "measure length")
  show "wf (measure length)" by simp
next
  fix s :: string
  assume "s \<noteq> []"
  then show "(drop (snd (DecodeRuneInString s)) s, s) \<in> measure length"
    using DecodeRuneInString_size_pos [of s] by (cases s) simp_all
qed

declare RuneCountInString.simps [simp del]

text \<open>The runes of a string, as \<open>for _, r := range s\<close> yields them.\<close>

function runes :: "string \<Rightarrow> rune list" where
  "runes s =
     (if s = [] then []
      else fst (DecodeRuneInString s) # runes (drop (snd (DecodeRuneInString s)) s))"
  by pat_completeness auto
termination
proof (relation "measure length")
  show "wf (measure length)" by simp
next
  fix s :: string
  assume "s \<noteq> []"
  then show "(drop (snd (DecodeRuneInString s)) s, s) \<in> measure length"
    using DecodeRuneInString_size_pos [of s] by (cases s) simp_all
qed

declare runes.simps [simp del]

text \<open>\<open>utf8.RuneStart\<close>: the byte is not a continuation byte.\<close>

definition RuneStart :: "char \<Rightarrow> bool" where
  "RuneStart c = ((of_char c :: nat) div 64 \<noteq> 2)"

text \<open>
  \<open>utf8.DecodeLastRuneInString\<close>: the last rune of the string and its width. It looks
  back over at most \<open>UTFMax = 4\<close> bytes for a byte that can start a rune, decodes from
  there, and gives \<open>RuneError\<close> of width 1 unless the rune ends where the string ends.
\<close>

definition lastRuneStart :: "string \<Rightarrow> nat" where
  "lastRuneStart s =
     (let end = length s; lim = end - 4 in
      case find (\<lambda>i. RuneStart (s ! i)) (rev [lim ..< end - 1]) of
        Some i \<Rightarrow> i
      | None \<Rightarrow> lim - 1)"

definition DecodeLastRuneInString :: "string \<Rightarrow> rune \<times> nat" where
  "DecodeLastRuneInString s =
     (if s = [] then (RuneError, 0)
      else if (of_char (last s) :: nat) < 0x80 then (of_char (last s), 1)
      else
        (let start = lastRuneStart s;
             d = DecodeRuneInString (drop start s)
         in if start + snd d \<noteq> length s then (RuneError, 1) else d))"

lemma find_Some_in_set: "find P xs = Some x \<Longrightarrow> x \<in> set xs"
  by (induction xs) (auto split: if_splits)

lemma lastRuneStart_less: "s \<noteq> [] \<Longrightarrow> lastRuneStart s < length s"
proof -
  assume ne: "s \<noteq> []"
  show ?thesis
  proof (cases "find (\<lambda>i. RuneStart (s ! i)) (rev [length s - 4 ..< length s - 1])")
    case None
    then show ?thesis using ne by (simp add: lastRuneStart_def Let_def)
  next
    case (Some i)
    then have "i \<in> set (rev [length s - 4 ..< length s - 1])" by (rule find_Some_in_set)
    then have "i < length s" by auto
    then show ?thesis using Some by (simp add: lastRuneStart_def Let_def)
  qed
qed

lemma DecodeLastRuneInString_size_pos: "s \<noteq> [] \<Longrightarrow> 0 < snd (DecodeLastRuneInString s)"
proof -
  assume ne: "s \<noteq> []"
  have "lastRuneStart s + snd (DecodeRuneInString (drop (lastRuneStart s) s)) = length s
        \<Longrightarrow> 0 < snd (DecodeRuneInString (drop (lastRuneStart s) s))"
  proof -
    assume eq: "lastRuneStart s + snd (DecodeRuneInString (drop (lastRuneStart s) s)) = length s"
    show ?thesis
    proof (cases "drop (lastRuneStart s) s = []")
      case True
      then have "snd (DecodeRuneInString (drop (lastRuneStart s) s)) = 0" by simp
      with eq have "lastRuneStart s = length s" by simp
      moreover have "lastRuneStart s < length s"
        using ne by (rule lastRuneStart_less)
      ultimately show ?thesis by simp
    next
      case False
      then show ?thesis by (rule DecodeRuneInString_size_pos)
    qed
  qed
  then show ?thesis using ne by (auto simp: DecodeLastRuneInString_def Let_def)
qed

lemma DecodeLastRuneInString_size_le: "snd (DecodeLastRuneInString s) \<le> length s"
  by (cases "s = []") (auto simp: DecodeLastRuneInString_def Let_def Suc_leI)

text \<open>
  \<open>unicode.IsSpace\<close>: the white space of Latin-1, and beyond it the code points with the
  Unicode property White_Space.
\<close>

definition IsSpace :: "rune \<Rightarrow> bool" where
  "IsSpace r =
     (if r \<le> 0xFF then r \<in> {0x09, 0x0A, 0x0B, 0x0C, 0x0D, 0x20, 0x85, 0xA0}
      else r = 0x1680 \<or> (0x2000 \<le> r \<and> r \<le> 0x200A) \<or> r = 0x2028 \<or> r = 0x2029
        \<or> r = 0x202F \<or> r = 0x205F \<or> r = 0x3000)"

text \<open>
  \<open>strings.indexFunc\<close> and \<open>strings.lastIndexFunc\<close>: the byte index of the first (last) rune
  on which \<open>f\<close> gives \<open>truth\<close>; \<open>None\<close> is the library's \<open>-1\<close>.
\<close>

function indexFunc :: "string \<Rightarrow> (rune \<Rightarrow> bool) \<Rightarrow> bool \<Rightarrow> nat option" where
  "indexFunc s f truth =
     (if s = [] then None
      else if f (fst (DecodeRuneInString s)) = truth then Some 0
      else map_option (\<lambda>i. snd (DecodeRuneInString s) + i)
             (indexFunc (drop (snd (DecodeRuneInString s)) s) f truth))"
  by pat_completeness auto
termination
proof (relation "measure (\<lambda>(s, f, truth). length s)")
  show "wf (measure (\<lambda>(s, f, truth). length s))" by simp
next
  fix s :: string and f :: "rune \<Rightarrow> bool" and truth :: bool
  assume "s \<noteq> []"
  then show "((drop (snd (DecodeRuneInString s)) s, f, truth), (s, f, truth))
             \<in> measure (\<lambda>(s, f, truth). length s)"
    using DecodeRuneInString_size_pos [of s] by (cases s) simp_all
qed

declare indexFunc.simps [simp del]

function lastIndexFunc :: "string \<Rightarrow> (rune \<Rightarrow> bool) \<Rightarrow> bool \<Rightarrow> nat option" where
  "lastIndexFunc s f truth =
     (if s = [] then None
      else if f (fst (DecodeLastRuneInString s)) = truth
        then Some (length s - snd (DecodeLastRuneInString s))
      else lastIndexFunc (take (length s - snd (DecodeLastRuneInString s)) s) f truth)"
  by pat_completeness auto
termination
proof (relation "measure (\<lambda>(s, f, truth). length s)")
  show "wf (measure (\<lambda>(s, f, truth). length s))" by simp
next
  fix s :: string and f :: "rune \<Rightarrow> bool" and truth :: bool
  assume "s \<noteq> []"
  then show "((take (length s - snd (DecodeLastRuneInString s)) s, f, truth), (s, f, truth))
             \<in> measure (\<lambda>(s, f, truth). length s)"
    using DecodeLastRuneInString_size_pos [of s] by (cases s) simp_all
qed

declare lastIndexFunc.simps [simp del]

text \<open>\<open>strings.TrimLeftFunc\<close>, \<open>strings.TrimRightFunc\<close>, \<open>strings.TrimFunc\<close>.\<close>

definition TrimLeftFunc :: "string \<Rightarrow> (rune \<Rightarrow> bool) \<Rightarrow> string" where
  "TrimLeftFunc s f = (case indexFunc s f False of None \<Rightarrow> [] | Some i \<Rightarrow> drop i s)"

definition TrimRightFunc :: "string \<Rightarrow> (rune \<Rightarrow> bool) \<Rightarrow> string" where
  "TrimRightFunc s f =
     (case lastIndexFunc s f False of
        None \<Rightarrow> []
      | Some i \<Rightarrow>
          if 0x80 \<le> (of_char (s ! i) :: nat)
          then take (i + snd (DecodeRuneInString (drop i s))) s
          else take (i + 1) s)"

definition TrimFunc :: "string \<Rightarrow> (rune \<Rightarrow> bool) \<Rightarrow> string" where
  "TrimFunc s f = TrimRightFunc (TrimLeftFunc s f) f"

text \<open>
  \<open>strings.TrimSpace\<close> removes the leading and trailing white space as Unicode defines it:
  it is \<open>TrimFunc\<close> with \<open>unicode.IsSpace\<close> (the library adds a fast path for ASCII).
\<close>

definition TrimSpace :: "string \<Rightarrow> string" where
  "TrimSpace s = TrimFunc s IsSpace"

text \<open>
  The UTF-8 encoding of a code point (\<open>utf8.AppendRune\<close> on a valid rune), and of a
  sequence of code points: the text a string holds when it is well-formed UTF-8. The
  Unicode scalar values are the code points up to \<open>0x10FFFF\<close> outside the surrogates.
\<close>

definition validRune :: "rune \<Rightarrow> bool" where
  "validRune r = (r < 0xD800 \<or> (0xE000 \<le> r \<and> r \<le> 0x10FFFF))"

definition encodeRune :: "rune \<Rightarrow> string" where
  "encodeRune r =
     (if r < 0x80 then [char_of r]
      else if r < 0x800 then [char_of (0xC0 + r div 64), char_of (0x80 + r mod 64)]
      else if r < 0x10000 then
        [char_of (0xE0 + r div 4096), char_of (0x80 + r div 64 mod 64), char_of (0x80 + r mod 64)]
      else
        [char_of (0xF0 + r div 262144), char_of (0x80 + r div 4096 mod 64),
         char_of (0x80 + r div 64 mod 64), char_of (0x80 + r mod 64)])"

definition utf8 :: "rune list \<Rightarrow> string" where
  "utf8 rs = concat (map encodeRune rs)"


section \<open>The validation functions (internal/validator/validator.go)\<close>

text \<open>\<open>return strings.TrimSpace(value) != ""\<close>\<close>

definition NotBlank :: "string \<Rightarrow> bool" where
  "NotBlank val = (TrimSpace val \<noteq> [])"

text \<open>\<open>return utf8.RuneCountInString(value) >= n\<close>, with \<open>n\<close> a Go \<open>int\<close>.\<close>

definition MinChars :: "string \<Rightarrow> int \<Rightarrow> bool" where
  "MinChars val n = (int (RuneCountInString val) \<ge> n)"

definition MaxChars :: "string \<Rightarrow> int \<Rightarrow> bool" where
  "MaxChars val n = (int (RuneCountInString val) \<le> n)"

text \<open>The loop over \<open>permittedValues\<close> returns at the first equal one.\<close>

fun PermittedValue :: "'a \<Rightarrow> 'a list \<Rightarrow> bool" where
  "PermittedValue val [] = False"
| "PermittedValue val (p # ps) = (if val = p then True else PermittedValue val ps)"

text \<open>
  A compiled \<open>*regexp.Regexp\<close> is taken as its \<open>MatchString\<close> method; \<open>EmailRX\<close> is one,
  and the handlers get it as a parameter.
\<close>

type_synonym Regexp = "string \<Rightarrow> bool"

definition Matches :: "string \<Rightarrow> Regexp \<Rightarrow> bool" where
  "Matches val rx = rx val"


section \<open>The HTTP environment\<close>

text \<open>
  \<open>net/http\<close>, \<open>context\<close>, \<open>errors\<close>, the session manager \<open>alexedwards/scs\<close> and the CSRF
  library \<open>justinas/nosurf\<close> are not part of this repository; what the handlers and the
  middleware call in them is modelled in this section and the next, from the libraries'
  documented behaviour, as far as the code of the repository depends on it.
\<close>

subsection \<open>Errors and panics\<close>

text \<open>
  The three sentinel errors of \<open>internal/models/errors.go\<close>, the sentinels \<open>pgx.ErrNoRows\<close>
  and \<open>bcrypt.ErrMismatchedHashAndPassword\<close> that the user model tests for, any other
  error with its message, and an error that wraps another (\<open>%w\<close>).
\<close>

datatype error =
    ErrNoRecord
  | ErrInvalidCredentials
  | ErrDuplicateEmail
  | ErrNoRows
  | ErrMismatchedHashAndPassword
  | ErrOther string
  | ErrWrap string error

fun errorText :: "error \<Rightarrow> string" where
  "errorText ErrNoRecord = ''models: no matching record found''"
| "errorText ErrInvalidCredentials = ''models: invalid credentials''"
| "errorText ErrDuplicateEmail = ''models: this email is already signed up''"
| "errorText ErrNoRows = ''no rows in result set''"
| "errorText ErrMismatchedHashAndPassword =
     ''crypto/bcrypt: hashedPassword is not the hash of the given password''"
| "errorText (ErrOther msg) = msg"
| "errorText (ErrWrap msg e) = msg"

fun errors_Is :: "error \<Rightarrow> error \<Rightarrow> bool" where
  "errors_Is (ErrWrap msg e) target = (ErrWrap msg e = target \<or> errors_Is e target)"
| "errors_Is err target = (err = target)"

text \<open>
  The value a panic carries: a string or an error (from Go 1.21 on \<open>panic(nil)\<close> carries a
  \<open>*runtime.PanicNilError\<close>, so what \<open>recover\<close> returns after a panic is never nil).
  \<open>fmt.Errorf("%s", v)\<close> makes an error whose message is the string, or the error's text.
\<close>

datatype panicVal = PanicString string | PanicError error


subsection \<open>Requests\<close>

text \<open>
  A value of type \<open>any\<close> kept in a request context or in the session. A context key is
  compared with its type: the keys of the package's own type \<open>contextKey\<close> are apart from
  the keys of every other type, whatever string they hold.
\<close>

datatype anyVal = BoolVal bool | IntVal int | StringVal string

datatype ctxKey = ContextKey string | ForeignKey string

text \<open>\<open>const isAuthenticatedContextKey = contextKey("isAuthenticated")\<close>\<close>

definition isAuthenticatedContextKey :: ctxKey where
  "isAuthenticatedContextKey = ContextKey ''isAuthenticated''"

text \<open>The key under which the CSRF library keeps its token for the request.\<close>

definition nosurfContextKey :: ctxKey where
  "nosurfContextKey = ForeignKey ''nosurf''"

text \<open>
  What the code reads of a request. \<open>ParseFormResult\<close> is what \<open>r.ParseForm()\<close> gives:
  an error, or the values of \<open>r.PostForm\<close>. \<open>SameOrigin\<close> is the outcome of the CSRF
  library's check of the request's origin.
\<close>

record Request =
  Method :: string
  RemoteAddr :: string
  Proto :: string
  RequestURI :: string
  ReqHeader :: "string \<rightharpoonup> string list"
  Cookies :: "string \<rightharpoonup> string"
  ParseFormResult :: "error + (string \<rightharpoonup> string list)"
  SameOrigin :: bool
  Context :: "ctxKey \<rightharpoonup> anyVal"

text \<open>
  A request as the server makes it from what a client sent: every field but the context
  comes from the client; the context holds no value under a key of the package.
\<close>

record ClientInput =
  ciMethod :: string
  ciRemoteAddr :: string
  ciProto :: string
  ciRequestURI :: string
  ciHeader :: "string \<rightharpoonup> string list"
  ciCookies :: "string \<rightharpoonup> string"
  ciParseFormResult :: "error + (string \<rightharpoonup> string list)"
  ciSameOrigin :: bool

definition serverRequest :: "ClientInput \<Rightarrow> Request" where
  "serverRequest ci =
     \<lparr>Method = ciMethod ci, RemoteAddr = ciRemoteAddr ci, Proto = ciProto ci,
      RequestURI = ciRequestURI ci, ReqHeader = ciHeader ci, Cookies = ciCookies ci,
      ParseFormResult = ciParseFormResult ci, SameOrigin = ciSameOrigin ci,
      Context = Map.empty\<rparr>"

text \<open>\<open>context.WithValue\<close> and \<open>r.WithContext\<close>.\<close>

definition WithValue :: "Request \<Rightarrow> ctxKey \<Rightarrow> anyVal \<Rightarrow> Request" where
  "WithValue r key val = r\<lparr>Context := (Context r)(key \<mapsto> val)\<rparr>"

subsection \<open>Responses\<close>

text \<open>
  An \<open>http.ResponseWriter\<close>: the header map, the status code once the header has been
  written, and the body written so far. The first \<open>WriteHeader\<close> decides the status; a
  later one is ignored. A \<open>Write\<close> before any \<open>WriteHeader\<close> writes the header with 200.
\<close>

record ResponseWriter =
  Header :: "string \<rightharpoonup> string list"
  StatusCode :: "nat option"
  Body :: string

definition newResponseWriter :: ResponseWriter where
  "newResponseWriter = \<lparr>Header = Map.empty, StatusCode = None, Body = []\<rparr>"

definition Header_Set :: "string \<Rightarrow> string \<Rightarrow> ResponseWriter \<Rightarrow> ResponseWriter" where
  "Header_Set key val rw = rw\<lparr>Header := (Header rw)(key \<mapsto> [val])\<rparr>"

definition Header_Add :: "string \<Rightarrow> string \<Rightarrow> ResponseWriter \<Rightarrow> ResponseWriter" where
  "Header_Add key val rw =
     rw\<lparr>Header := (Header rw)(key \<mapsto> (case Header rw key of None \<Rightarrow> [] | Some vs \<Rightarrow> vs) @ [val])\<rparr>"

definition Header_Del :: "string \<Rightarrow> ResponseWriter \<Rightarrow> ResponseWriter" where
  "Header_Del key rw = rw\<lparr>Header := (Header rw)(key := None)\<rparr>"

definition WriteHeader :: "nat \<Rightarrow> ResponseWriter \<Rightarrow> ResponseWriter" where
  "WriteHeader code rw =
     (case StatusCode rw of None \<Rightarrow> rw\<lparr>StatusCode := Some code\<rparr> | Some c \<Rightarrow> rw)"

definition Write :: "string \<Rightarrow> ResponseWriter \<Rightarrow> ResponseWriter" where
  "Write s rw = (let rw' = WriteHeader 200 rw in rw'\<lparr>Body := Body rw' @ s\<rparr>)"

text \<open>\<open>http.StatusText\<close>, for the codes the application uses.\<close>

definition StatusText :: "nat \<Rightarrow> string" where
  "StatusText code =
     (if code = 200 then ''OK''
      else if code = 303 then ''See Other''
      else if code = 400 then ''Bad Request''
      else if code = 403 then ''Forbidden''
      else if code = 404 then ''Not Found''
      else if code = 422 then ''Unprocessable Entity''
      else if code = 500 then ''Internal Server Error''
      else [])"

text \<open>
  \<open>http.Error\<close>: the content length is dropped, the content type is set to plain text,
  the header is written with the code, and the message is written with a newline.
\<close>

definition http_Error :: "ResponseWriter \<Rightarrow> string \<Rightarrow> nat \<Rightarrow> ResponseWriter" where
  "http_Error rw msg code =
     Write (msg @ [CHR 0x0A])
       (WriteHeader code
         (Header_Set ''X-Content-Type-Options'' ''nosniff''
           (Header_Set ''Content-Type'' ''text/plain; charset=utf-8''
             (Header_Del ''Content-Length'' rw))))"

text \<open>
  \<open>http.Redirect\<close> to a target that is an absolute path in clean form, as the targets of
  the application are: the path is the \<open>Location\<close>; a short HTML body is written for a GET
  unless a content type was set before.
\<close>

definition http_Redirect :: "ResponseWriter \<Rightarrow> Request \<Rightarrow> string \<Rightarrow> nat \<Rightarrow> ResponseWriter" where
  "http_Redirect rw r url code =
     (let hadCT = (Header rw ''Content-Type'' \<noteq> None);
          rw1 = Header_Set ''Location'' url rw;
          rw2 = (if \<not> hadCT \<and> (Method r = ''GET'' \<or> Method r = ''HEAD'')
                 then Header_Set ''Content-Type'' ''text/html; charset=utf-8'' rw1 else rw1);
          rw3 = WriteHeader code rw2
      in if \<not> hadCT \<and> Method r = ''GET''
         then Write (''<a href=\"'' @ url @ ''\">'' @ StatusText code @ ''</a>.'' @ [CHR 0x0A, CHR 0x0A]) rw3
         else rw3)"

subsection \<open>Forms and template data (cmd/web/handlers.go, templates.go)\<close>

text \<open>\<open>userLoginForm\<close> embeds a \<open>Validator\<close>.\<close>

record userLoginForm = Validator +
  Email :: string
  Password :: string

text \<open>The field \<open>Form any\<close> of the template data, for the forms modelled here.\<close>

datatype formVal = NoForm | LoginForm userLoginForm

text \<open>\<open>templateData\<close>, without the snippets, which the handlers modelled here leave unset.\<close>

record templateData =
  CurrentYear :: int
  Form :: formVal
  Flash :: string
  IsAuthenticated :: bool
  CSRFToken :: string

subsection \<open>The state of a request being served\<close>

text \<open>
  What a handler can change while it serves a request inside the session middleware: the
  response, the two logs, the session (its token and its values) and the random source,
  given as the tokens it will yield. \<open>rendered\<close> is not in the program: it records each
  page written by \<open>render\<close> with the status and the data the template got, so that
  properties of the data can be stated.
\<close>

record World =
  resp :: ResponseWriter
  errorLog :: "string list"
  infoLog :: "string list"
  sessionToken :: string
  sessionValues :: "string \<rightharpoonup> anyVal"
  entropy :: "string list"
  rendered :: "(nat \<times> string \<times> templateData) list"

text \<open>A handler returns, or panics with a value; what it did before the panic stays done.\<close>

datatype Outcome = Returned World | Panicked panicVal World

type_synonym Handler = "Request \<Rightarrow> World \<Rightarrow> Outcome"

text \<open>Reading an outcome: the state it leaves, and whether the handler returned.\<close>

fun outcomeWorld :: "Outcome \<Rightarrow> World" where
  "outcomeWorld (Returned w) = w"
| "outcomeWorld (Panicked v w) = w"

fun didReturn :: "Outcome \<Rightarrow> bool" where
  "didReturn (Returned w) = True"
| "didReturn (Panicked v w) = False"

text \<open>
  The fields of \<open>application\<close> that the code modelled here uses, each as the function the
  code calls on it: the user model's \<open>Exists\<close> and \<open>Authenticate\<close>, the template cache (a
  template is its \<open>ExecuteTemplate\<close>: an error or the page), and from the environment the
  session store's \<open>Delete\<close>, \<open>debug.Stack()\<close>, the year of \<open>time.Now()\<close> and the
  validator's \<open>EmailRX\<close>.
\<close>

record application =
  usersExists :: "int \<Rightarrow> error + bool"
  usersAuthenticate :: "string \<Rightarrow> string \<Rightarrow> error + int"
  templateCache :: "string \<rightharpoonup> (templateData \<Rightarrow> error + string)"
  storeDelete :: "string \<Rightarrow> error option"
  debugStack :: string
  nowYear :: int
  EmailRX :: Regexp

subsection \<open>The session manager\<close>

text \<open>\<open>GetInt\<close> gives 0 when the key is absent or its value is not an \<open>int\<close>.\<close>

definition GetInt :: "World \<Rightarrow> string \<Rightarrow> int" where
  "GetInt w key = (case sessionValues w key of Some (IntVal i) \<Rightarrow> i | _ \<Rightarrow> 0)"

definition Put :: "World \<Rightarrow> string \<Rightarrow> anyVal \<Rightarrow> World" where
  "Put w key val = w\<lparr>sessionValues := (sessionValues w)(key \<mapsto> val)\<rparr>"

definition Remove :: "World \<Rightarrow> string \<Rightarrow> World" where
  "Remove w key = w\<lparr>sessionValues := (sessionValues w)(key := None)\<rparr>"

text \<open>\<open>PopString\<close> removes the key and gives its string, or \<open>""\<close>.\<close>

definition PopString :: "World \<Rightarrow> string \<Rightarrow> string \<times> World" where
  "PopString w key =
     ((case sessionValues w key of Some (StringVal s) \<Rightarrow> s | _ \<Rightarrow> []), Remove w key)"

text \<open>
  \<open>RenewToken\<close> deletes the session under its token from the store, when it has one, and
  gives the session a new token from the random source; either step may fail.
\<close>

definition RenewToken :: "application \<Rightarrow> World \<Rightarrow> error + World" where
  "RenewToken app w =
     (case (if sessionToken w \<noteq> [] then storeDelete app (sessionToken w) else None) of
        Some err \<Rightarrow> Inl err
      | None \<Rightarrow>
          (case entropy w of
             [] \<Rightarrow> Inl (ErrOther ''crypto/rand: no random data'')
           | t # ts \<Rightarrow> Inr (w\<lparr>sessionToken := t, entropy := ts\<rparr>)))"


subsection \<open>The CSRF library\<close>

text \<open>
  \<open>nosurf\<close> keeps the token of a client in the cookie \<open>csrf_token\<close> and expects it back,
  on every request whose method is not safe, in the header \<open>X-CSRF-Token\<close> or else in the
  form field \<open>csrf_token\<close> (a multipart form, the third place the library looks in, is
  not modelled). The cookie and the sent token stand here for their decoded values; the one-time pad that masks the token in a form is left out, so a sent token
  verifies when it is the cookie's token and has the library's token length. The library's
  default failure handler, the only one in use since \<open>noSurf\<close> installs none, answers
  through \<open>http.Error\<close> with the library's constant \<open>FailureCode = 400\<close>; the message of
  that reply is taken as empty, and no statement below depends on its text.
\<close>

definition tokenLength :: nat where
  "tokenLength = 32"

definition FailureCode :: nat where
  "FailureCode = 400"

definition safeMethods :: "string list" where
  "safeMethods = [''GET'', ''HEAD'', ''OPTIONS'', ''TRACE'']"

definition PostFormValue :: "Request \<Rightarrow> string \<Rightarrow> string" where
  "PostFormValue r key =
     (case ParseFormResult r of
        Inl err \<Rightarrow> []
      | Inr pf \<Rightarrow> (case pf key of Some (v # vs) \<Rightarrow> v | _ \<Rightarrow> []))"

definition extractToken :: "Request \<Rightarrow> string" where
  "extractToken r =
     (case ReqHeader r ''X-Csrf-Token'' of
        Some (v # vs) \<Rightarrow> (if v \<noteq> [] then v else PostFormValue r ''csrf_token'')
      | _ \<Rightarrow> PostFormValue r ''csrf_token'')"

definition verifyToken :: "string \<Rightarrow> string \<Rightarrow> bool" where
  "verifyToken realToken sentToken = (length realToken = tokenLength \<and> sentToken = realToken)"

text \<open>\<open>nosurf.Token(r)\<close>: the token the library put into the request's context.\<close>

definition nosurf_Token :: "Request \<Rightarrow> string" where
  "nosurf_Token r = (case Context r nosurfContextKey of Some (StringVal t) \<Rightarrow> t | _ \<Rightarrow> [])"

text \<open>
  The handler \<open>nosurf.New(next)\<close> with the base cookie of \<open>noSurf\<close>. A cookie that does
  not hold a token of the right length is replaced by a new token from the random source
  (the library panics when the source fails).
\<close>

text \<open>The token of the cookie \<open>csrf_token\<close>; none when the request has no such cookie.\<close>

definition cookieToken :: "Request \<Rightarrow> string" where
  "cookieToken r = (case Cookies r ''csrf_token'' of Some v \<Rightarrow> v | None \<Rightarrow> [])"

definition csrfCheck :: "Handler \<Rightarrow> string \<Rightarrow> Handler" where
  "csrfCheck next realToken r w =
     (if Method r \<in> set safeMethods then next r w
      else if \<not> SameOrigin r then Returned (w\<lparr>resp := http_Error (resp w) [] FailureCode\<rparr>)
      else if \<not> verifyToken realToken (extractToken r)
        then Returned (w\<lparr>resp := http_Error (resp w) [] FailureCode\<rparr>)
      else next r w)"

definition csrfHandler :: "Handler \<Rightarrow> Handler" where
  "csrfHandler next r w =
     (let w1 = w\<lparr>resp := Header_Add ''Vary'' ''Cookie'' (resp w)\<rparr>;
          realToken = cookieToken r
      in if length realToken \<noteq> tokenLength then
           (case entropy w1 of
              [] \<Rightarrow> Panicked (PanicError (ErrOther ''crypto/rand: no random data'')) w1
            | t # ts \<Rightarrow>
                csrfCheck next realToken (WithValue r nosurfContextKey (StringVal t))
                  (w1\<lparr>entropy := ts,
                      resp := Header_Add ''Set-Cookie''
                        (''csrf_token='' @ t @ ''; Path=/; HttpOnly; Secure'') (resp w1)\<rparr>))
         else csrfCheck next realToken (WithValue r nosurfContextKey (StringVal realToken)) w1)"


section \<open>The user model (internal/models/users.go)\<close>

text \<open>
  \<open>UserModel.Authenticate\<close> over the two calls it makes: the query for the id and the
  hashed password of an email, which gives \<open>pgx.ErrNoRows\<close> when there is no such user, and
  \<open>bcrypt.CompareHashAndPassword\<close>. An unknown email and a wrong password both become
  \<open>ErrInvalidCredentials\<close>; any other error is passed on.
\<close>

record UserModel =
  queryUserByEmail :: "string \<Rightarrow> error + (int \<times> string)"
  CompareHashAndPassword :: "string \<Rightarrow> string \<Rightarrow> error option"

definition UserModel_Authenticate :: "UserModel \<Rightarrow> string \<Rightarrow> string \<Rightarrow> error + int" where
  "UserModel_Authenticate m email password =
     (case queryUserByEmail m email of
        Inl err \<Rightarrow> if errors_Is err ErrNoRows then Inl ErrInvalidCredentials else Inl err
      | Inr (uid, hashedPassword) \<Rightarrow>
          (case CompareHashAndPassword m hashedPassword password of
             Some err \<Rightarrow>
               if errors_Is err ErrMismatchedHashAndPassword then Inl ErrInvalidCredentials
               else Inl err
           | None \<Rightarrow> Inr uid))"


section \<open>Helpers (cmd/web/helpers.go)\<close>

text \<open>
  \<open>serverError\<close>: the error's text and the stack trace go to the error log as one entry,
  and the client gets \<open>Internal Server Error\<close> with the code 500.
\<close>

definition serverError :: "application \<Rightarrow> World \<Rightarrow> error \<Rightarrow> World" where
  "serverError app w err =
     (let trace = errorText err @ [CHR 0x0A] @ debugStack app;
          w1 = w\<lparr>errorLog := errorLog w @ [trace]\<rparr>
      in w1\<lparr>resp := http_Error (resp w1) (StatusText 500) 500\<rparr>)"

definition clientError :: "World \<Rightarrow> nat \<Rightarrow> World" where
  "clientError w status = w\<lparr>resp := http_Error (resp w) (StatusText status) status\<rparr>"

definition notFound :: "World \<Rightarrow> World" where
  "notFound w = clientError w 404"

text \<open>
  \<open>isAuthenticated\<close>: the type assertion \<open>.(bool)\<close> fails on an absent value and on a value
  of another type.
\<close>

definition isAuthenticated :: "Request \<Rightarrow> bool" where
  "isAuthenticated r =
     (case Context r isAuthenticatedContextKey of Some (BoolVal b) \<Rightarrow> b | _ \<Rightarrow> False)"

definition newTemplateData :: "application \<Rightarrow> Request \<Rightarrow> World \<Rightarrow> templateData \<times> World" where
  "newTemplateData app r w =
     (let (flash, w1) = PopString w ''flash'' in
      (\<lparr>CurrentYear = nowYear app, Form = NoForm, Flash = flash,
        IsAuthenticated = isAuthenticated r, CSRFToken = nosurf_Token r\<rparr>, w1))"

text \<open>
  \<open>render\<close>: a page that is not in the cache, or whose template fails, is a server error;
  otherwise the status and the page are written.
\<close>

definition render :: "application \<Rightarrow> World \<Rightarrow> nat \<Rightarrow> string \<Rightarrow> templateData \<Rightarrow> World" where
  "render app w status page data =
     (case templateCache app page of
        None \<Rightarrow> serverError app w (ErrOther (''the template '' @ page @ '' does not exist''))
      | Some ts \<Rightarrow>
          (case ts data of
             Inl err \<Rightarrow> serverError app w err
           | Inr buf \<Rightarrow>
               w\<lparr>resp := Write buf (WriteHeader status (resp w)),
                 rendered := rendered w @ [(status, page, data)]\<rparr>))"

text \<open>
  \<open>decodePostForm\<close> into a \<open>userLoginForm\<close>: \<open>ParseForm\<close> may fail; the decoder fills a
  string field with the first value of its key, leaves it empty when there is none, and
  skips the validator (tagged \<open>form:"-"\<close>), which keeps its zero value.
\<close>

definition decodePostForm_userLoginForm :: "Request \<Rightarrow> error + userLoginForm" where
  "decodePostForm_userLoginForm r =
     (case ParseFormResult r of
        Inl err \<Rightarrow> Inl err
      | Inr pf \<Rightarrow>
          Inr \<lparr>NonFieldErrors = [], FieldErrors = None,
               Email = (case pf ''email'' of Some (v # vs) \<Rightarrow> v | _ \<Rightarrow> []),
               Password = (case pf ''password'' of Some (v # vs) \<Rightarrow> v | _ \<Rightarrow> [])\<rparr>)"


section \<open>Middleware (cmd/web/middleware.go)\<close>

definition secureHeaders :: "Handler \<Rightarrow> Handler" where
  "secureHeaders next r w =
     next r (w\<lparr>resp :=
       Header_Set ''X-Xss-Protection'' ''0''
         (Header_Set ''X-Frame-Options'' ''deny''
           (Header_Set ''X-Content-Type-Options'' ''nosniff''
             (Header_Set ''Referrer-Policy'' ''origin-when-cross-origin''
               (Header_Set ''Content-Security-Policy''
                  ''default-src 'self'; style-src 'self' fonts.googleapis.com; font-src fonts.gstatic.com''
                  (resp w)))))\<rparr>)"

text \<open>\<open>noSurf\<close> returns the library's handler around \<open>next\<close>.\<close>

definition noSurf :: "Handler \<Rightarrow> Handler" where
  "noSurf next = csrfHandler next"

definition logRequest :: "application \<Rightarrow> Handler \<Rightarrow> Handler" where
  "logRequest app next r w =
     next r (w\<lparr>infoLog := infoLog w @
       [RemoteAddr r @ '' - '' @ Proto r @ '' '' @ Method r @ '' '' @ RequestURI r]\<rparr>)"


definition authenticate :: "application \<Rightarrow> Handler \<Rightarrow> Handler" where
  "authenticate app next r w =
     (let uid = GetInt w ''authenticatedUserID'' in
      if uid = 0 then next r w
      else
        (case usersExists app uid of
           Inl err \<Rightarrow> Returned (serverError app w err)
         | Inr exists \<Rightarrow>
             if exists then next (WithValue r isAuthenticatedContextKey (BoolVal True)) w
             else next r w))"

definition requireAuthentication :: "application \<Rightarrow> Handler \<Rightarrow> Handler" where
  "requireAuthentication app next r w =
     (if \<not> isAuthenticated r
      then Returned (w\<lparr>resp := http_Redirect (resp w) r ''/user/login'' 303\<rparr>)
      else next r (w\<lparr>resp := Header_Add ''Cache-Control'' ''no-store'' (resp w)\<rparr>))"


section \<open>Handlers (cmd/web/handlers.go)\<close>

definition userLoginPost :: "application \<Rightarrow> Handler" where
  "userLoginPost app r w =
     (case decodePostForm_userLoginForm r of
        Inl err \<Rightarrow> Returned (clientError w 400)
      | Inr form0 \<Rightarrow>
          (let form1 = CheckField form0 (NotBlank (Email form0))
                         ''email'' ''This field cannot be blank'';
               form2 = CheckField form1 (Matches (Email form1) (EmailRX app))
                         ''email'' ''This field must be a valid email address.'';
               form3 = CheckField form2 (NotBlank (Password form2))
                         ''password'' ''This field cannot be blank''
           in if \<not> Valid form3 then
                (let (data, w1) = newTemplateData app r w in
                 Returned (render app w1 422 ''login.tmpl'' (data\<lparr>Form := LoginForm form3\<rparr>)))
              else
                (case usersAuthenticate app (Email form3) (Password form3) of
                   Inl err \<Rightarrow>
                     if errors_Is err ErrInvalidCredentials then
                       (let form4 = AddNonFieldError form3 ''Email or password is incorrect'';
                            (data, w1) = newTemplateData app r w
                        in Returned (render app w1 422 ''login.tmpl''
                                       (data\<lparr>Form := LoginForm form4\<rparr>)))
                     else Returned (serverError app w err)
                 | Inr uid \<Rightarrow>
                     (case RenewToken app w of
                        Inl err \<Rightarrow> Returned (serverError app w err)
                      | Inr w1 \<Rightarrow>
                          (let w2 = Put w1 ''authenticatedUserID'' (IntVal uid) in
                           Returned (w2\<lparr>resp := http_Redirect (resp w2) r ''/snippet/create'' 303\<rparr>))))))"

definition userLogoutPost :: "application \<Rightarrow> Handler" where
  "userLogoutPost app r w =
     (case RenewToken app w of
        Inl err \<Rightarrow> Returned (serverError app w err)
      | Inr w1 \<Rightarrow>
          (let w2 = Remove w1 ''authenticatedUserID'';
               w3 = Put w2 ''flash'' (StringVal ''You've been logged out successfully!'')
           in Returned (w3\<lparr>resp := http_Redirect (resp w3) r ''/'' 303\<rparr>)))"


section \<open>Example values\<close>

text \<open>
  A concrete application, state, requests and handlers, on which the statements below are
  evaluated.
\<close>

definition exampleApp :: application where
  "exampleApp =
     \<lparr>usersExists = (\<lambda>uid. if uid = 1 then Inr True else if uid = 2 then Inr False
                         else Inl (ErrOther ''connection refused'')),
      usersAuthenticate = (\<lambda>email password.
         if email = ''alice@example.com'' \<and> password = ''pa$$word'' then Inr 1
         else Inl ErrInvalidCredentials),
      templateCache = [''login.tmpl'' \<mapsto> (\<lambda>data. Inr ''<html>login</html>'')],
      storeDelete = (\<lambda>token. None),
      debugStack = ''goroutine 1 [running]'',
      nowYear = 2025,
      EmailRX = (\<lambda>s. CHR ''@'' \<in> set s)\<rparr>"

definition exampleWorld :: World where
  "exampleWorld =
     \<lparr>resp = newResponseWriter, errorLog = [], infoLog = [],
      sessionToken = ''session-token-0'', sessionValues = Map.empty,
      entropy = [''0123456789abcdef0123456789ABCDEF'', ''fedcba9876543210FEDCBA9876543210''],
      rendered = []\<rparr>"

definition exampleGet :: Request where
  "exampleGet =
     \<lparr>Method = ''GET'', RemoteAddr = ''127.0.0.1:50000'', Proto = ''HTTP/1.1'',
      RequestURI = ''/snippet/create'', ReqHeader = Map.empty, Cookies = Map.empty,
      ParseFormResult = Inr Map.empty, SameOrigin = True, Context = Map.empty\<rparr>"

definition exampleHandler :: Handler where
  "exampleHandler r w = Returned (w\<lparr>resp := Write ''OK'' (resp w)\<rparr>)"




definition examplePost :: Request where
  "examplePost =
     \<lparr>Method = ''POST'', RemoteAddr = ''127.0.0.1:50000'', Proto = ''HTTP/1.1'',
      RequestURI = ''/user/login'', ReqHeader = Map.empty,
      Cookies = [''csrf_token'' \<mapsto> ''0123456789abcdef0123456789abcdef''],
      ParseFormResult = Inr [''email'' \<mapsto> [''alice@example.com''],
                             ''password'' \<mapsto> [''pa$$word'']],
      SameOrigin = True, Context = Map.empty\<rparr>"





definition exampleLogin :: Request where
  "exampleLogin =
     \<lparr>Method = ''POST'', RemoteAddr = ''127.0.0.1:50000'', Proto = ''HTTP/1.1'',
      RequestURI = ''/user/login'', ReqHeader = Map.empty,
      Cookies = [''csrf_token'' \<mapsto> ''0123456789abcdef0123456789abcdef''],
      ParseFormResult = Inr [''email'' \<mapsto> [''alice@example.com''],
                             ''password'' \<mapsto> [''pa$$word''],
                             ''csrf_token'' \<mapsto> [''0123456789abcdef0123456789abcdef'']],
      SameOrigin = True, Context = Map.empty\<rparr>"

definition exampleForm :: userLoginForm where
  "exampleForm =
     \<lparr>NonFieldErrors = [], FieldErrors = None,
      Email = ''alice@example.com'', Password = ''pa$$word''\<rparr>"

definition exampleLaterPost :: Request where
  "exampleLaterPost =
     \<lparr>Method = ''POST'', RemoteAddr = ''127.0.0.1:50000'', Proto = ''HTTP/1.1'',
      RequestURI = ''/snippet/create'', ReqHeader = Map.empty,
      Cookies = [''csrf_token'' \<mapsto> ''0123456789abcdef0123456789abcdef''],
      ParseFormResult = Inr [''title'' \<mapsto> [''A title''],
                             ''csrf_token'' \<mapsto> [''0123456789abcdef0123456789abcdef'']],
      SameOrigin = True, Context = Map.empty\<rparr>"

definition exampleAfterLogin :: World where
  "exampleAfterLogin = outcomeWorld (noSurf (userLoginPost exampleApp) exampleLogin exampleWorld)"


section \<open>Properties of the validator\<close>

lemma fieldError_AddFieldError_same:
  "fieldError (AddFieldError v key message) key =
     (case fieldError v key of None \<Rightarrow> Some message | Some old \<Rightarrow> Some old)"
  by (auto simp: fieldError_def fieldErrorsMap_def AddFieldError_def Let_def
      split: option.splits)

lemma fieldError_AddFieldError_other:
  "key' \<noteq> key \<Longrightarrow> fieldError (AddFieldError v key message) key' = fieldError v key'"
  by (auto simp: fieldError_def fieldErrorsMap_def AddFieldError_def Let_def
      split: option.splits)

lemma fieldError_CheckField_same:
  "fieldError (CheckField v ok key message) key =
     (case fieldError v key of
        None \<Rightarrow> (if ok then None else Some message)
      | Some old \<Rightarrow> Some old)"
  by (simp add: CheckField_def fieldError_AddFieldError_same split: option.splits)

lemma checkFieldSeq_keeps:
  "fieldError v key = Some old \<Longrightarrow> fieldError (checkFieldSeq v key cs) key = Some old"
proof (induction cs arbitrary: v)
  case Nil
  then show ?case by simp
next
  case (Cons c cs)
  obtain ok message where c: "c = (ok, message)" by (cases c)
  have "fieldError (CheckField v ok key message) key = Some old"
    using Cons.prems by (simp add: fieldError_CheckField_same)
  then show ?case using Cons.IH c by simp
qed

text \<open>
  C6. After any sequence of \<open>CheckField\<close> calls with one key, the message held for the
  key is the one that was there before, if any, and otherwise the message of the first
  call of the sequence whose condition was false; if no call failed there is none. Later
  failing calls change nothing.
\<close>

theorem checkFieldSeq_first_failure_wins:
  "fieldError (checkFieldSeq v key cs) key =
     (case fieldError v key of
        Some old \<Rightarrow> Some old
      | None \<Rightarrow> map_option snd (find (\<lambda>c. \<not> fst c) cs))"
proof (induction cs arbitrary: v)
  case Nil
  then show ?case by (simp split: option.splits)
next
  case (Cons c cs)
  obtain ok message where c: "c = (ok, message)" by (cases c)
  show ?case
  proof (cases "fieldError v key")
    case (Some old)
    then show ?thesis using checkFieldSeq_keeps [of v key old "c # cs"] by simp
  next
    case None
    show ?thesis
    proof (cases ok)
      case True
      then have "CheckField v ok key message = v" by (simp add: CheckField_def)
      then show ?thesis using Cons.IH [of v] None c True by simp
    next
      case False
      have "fieldError (CheckField v ok key message) key = Some message"
        using None False by (simp add: fieldError_CheckField_same)
      then have "fieldError (checkFieldSeq (CheckField v ok key message) key cs) key = Some message"
        by (rule checkFieldSeq_keeps)
      then show ?thesis using None c False by simp
    qed
  qed
qed

lemma Valid_iff: "Valid v \<longleftrightarrow> dom (fieldErrorsMap v) = {} \<and> NonFieldErrors v = []"
  by (simp add: Valid_def fieldErrorsMap_def split: option.splits)

lemma not_Valid_AddNonFieldError: "\<not> Valid (AddNonFieldError v message)"
  by (simp add: Valid_iff AddNonFieldError_def)

lemma not_Valid_AddFieldError: "\<not> Valid (AddFieldError v key message)"
  by (auto simp: Valid_iff fieldErrorsMap_def AddFieldError_def Let_def split: option.splits)

lemma applyCall_keeps_invalid: "\<not> Valid v \<Longrightarrow> \<not> Valid (applyCall v c)"
proof (cases c)
  case (CallAddNonFieldError message)
  then show ?thesis by (simp add: not_Valid_AddNonFieldError)
next
  case (CallAddFieldError key message)
  then show ?thesis by (simp add: not_Valid_AddFieldError)
next
  case (CallCheckField ok key message)
  assume "\<not> Valid v"
  then show ?thesis using CallCheckField
    by (simp add: CheckField_def not_Valid_AddFieldError)
qed

lemma applyCalls_keeps_invalid: "\<not> Valid v \<Longrightarrow> \<not> Valid (applyCalls v cs)"
  by (induction cs arbitrary: v) (simp_all add: applyCall_keeps_invalid)

text \<open>
  C7. A validator is valid exactly when it has no field error and no non-field error.
  Once \<open>AddFieldError\<close> or \<open>AddNonFieldError\<close> has been called it is invalid, and it
  stays invalid under every further sequence of calls of its methods.
\<close>

theorem Valid_iff_empty_and_never_cleared:
  "(Valid v \<longleftrightarrow> dom (fieldErrorsMap v) = {} \<and> NonFieldErrors v = [])
   \<and> \<not> Valid (applyCalls (AddFieldError v key message) cs)
   \<and> \<not> Valid (applyCalls (AddNonFieldError v message) cs)"
  using Valid_iff [of v]
    applyCalls_keeps_invalid [OF not_Valid_AddFieldError, of v key message cs]
    applyCalls_keeps_invalid [OF not_Valid_AddNonFieldError, of v message cs]
  by blast


section \<open>Properties of the middleware\<close>

subsection \<open>Facts about the response writer\<close>

lemma http_Error_fresh:
  "StatusCode rw = None \<Longrightarrow> StatusCode (http_Error rw msg code) = Some code"
  by (simp add: http_Error_def Write_def WriteHeader_def Header_Set_def Header_Del_def Let_def)




lemma StatusCode_http_Redirect:
  "StatusCode rw = None \<Longrightarrow> StatusCode (http_Redirect rw r url code) = Some code"
  by (simp add: http_Redirect_def Let_def Write_def WriteHeader_def Header_Set_def)

lemma Location_http_Redirect:
  "Header (http_Redirect rw r url code) ''Location'' = Some [url]"
  by (simp add: http_Redirect_def Let_def Write_def WriteHeader_def Header_Set_def
      split: option.splits)

lemma exampleWorld_fresh:
  "StatusCode (resp exampleWorld) = None"
  "Body (resp exampleWorld) = []"
  "errorLog exampleWorld = []"
  by (simp_all add: exampleWorld_def newResponseWriter_def)

subsection \<open>The authentication flag\<close>

lemma isAuthenticated_WithValue_nosurf:
  "isAuthenticated (WithValue r nosurfContextKey v) = isAuthenticated r"
  by (simp add: isAuthenticated_def WithValue_def nosurfContextKey_def isAuthenticatedContextKey_def)

lemma csrfCheck_gate_cong:
  assumes "\<And>r' w'. isAuthenticated r' = isAuthenticated r \<Longrightarrow> next r' w' = next' r' w'"
  shows "csrfCheck next tok r w = csrfCheck next' tok r w"
  using assms by (simp add: csrfCheck_def)

lemma noSurf_cong:
  assumes "\<And>r' w'. isAuthenticated r' = isAuthenticated r \<Longrightarrow> next r' w' = next' r' w'"
  shows "noSurf next r w = noSurf next' r w"
proof -
  have "\<And>v w'. csrfCheck next tok (WithValue r nosurfContextKey v) w'
        = csrfCheck next' tok (WithValue r nosurfContextKey v) w'" for tok
    by (rule csrfCheck_gate_cong) (simp add: assms isAuthenticated_WithValue_nosurf)
  then show ?thesis
    by (simp add: noSurf_def csrfHandler_def Let_def split: list.splits)
qed

text \<open>
  C10. \<open>isAuthenticated\<close> is true exactly when the request's context holds the boolean
  \<open>true\<close> under \<open>isAuthenticatedContextKey\<close>: an absent key and a value of another type
  give false. A request as the server makes it from a client's input is not authenticated,
  whatever the client sent; and in a chain without \<open>authenticate\<close> (the CSRF handler, then
  the gate \<open>requireAuthentication\<close>) the outcome does not depend on the handler behind
  the gate: the request is treated as anonymous.
\<close>

theorem isAuthenticated_only_server_side:
  "isAuthenticated r = (Context r isAuthenticatedContextKey = Some (BoolVal True))
   \<and> \<not> isAuthenticated (serverRequest ci)
   \<and> noSurf (requireAuthentication app next) (serverRequest ci) w
       = noSurf (requireAuthentication app next') (serverRequest ci) w"
proof -
  have 1: "isAuthenticated r = (Context r isAuthenticatedContextKey = Some (BoolVal True))"
    by (auto simp: isAuthenticated_def split: option.splits anyVal.splits)
  have 2: "\<not> isAuthenticated (serverRequest ci)"
    by (simp add: isAuthenticated_def serverRequest_def)
  have 3: "noSurf (requireAuthentication app next) (serverRequest ci) w
       = noSurf (requireAuthentication app next') (serverRequest ci) w"
    by (rule noSurf_cong) (simp add: requireAuthentication_def 2)
  show ?thesis by (intro conjI 1 2 3)
qed

subsection \<open>The resolver \<open>authenticate\<close>\<close>

text \<open>
  C3. When the session holds no user id (\<open>GetInt\<close> gives 0), or holds one for which
  \<open>Exists\<close> answers false without an error, \<open>authenticate\<close> calls the next handler with the
  request as it came, so without setting the flag, and with the state as it came: it
  writes no response and logs nothing.
\<close>

theorem authenticate_anonymous:
  assumes "GetInt w ''authenticatedUserID'' = 0
           \<or> usersExists app (GetInt w ''authenticatedUserID'') = Inr False"
  shows "authenticate app next r w = next r w"
  using assms by (auto simp: authenticate_def Let_def)

theorem authenticate_anonymous_witness:
  "GetInt exampleWorld ''authenticatedUserID'' = 0
   \<and> usersExists exampleApp
        (GetInt (Put exampleWorld ''authenticatedUserID'' (IntVal 2)) ''authenticatedUserID'')
       = Inr False
   \<and> authenticate exampleApp exampleHandler exampleGet exampleWorld
       = exampleHandler exampleGet exampleWorld
   \<and> authenticate exampleApp exampleHandler exampleGet
        (Put exampleWorld ''authenticatedUserID'' (IntVal 2))
       = exampleHandler exampleGet (Put exampleWorld ''authenticatedUserID'' (IntVal 2))"
proof -
  have a: "GetInt exampleWorld ''authenticatedUserID'' = 0"
    by (simp add: GetInt_def exampleWorld_def)
  have b: "usersExists exampleApp
             (GetInt (Put exampleWorld ''authenticatedUserID'' (IntVal 2)) ''authenticatedUserID'')
           = Inr False"
    by (simp add: GetInt_def Put_def exampleApp_def)
  have c: "authenticate exampleApp exampleHandler exampleGet exampleWorld
            = exampleHandler exampleGet exampleWorld"
    by (rule authenticate_anonymous) (rule disjI1 [OF a])
  have d: "authenticate exampleApp exampleHandler exampleGet
             (Put exampleWorld ''authenticatedUserID'' (IntVal 2))
            = exampleHandler exampleGet (Put exampleWorld ''authenticatedUserID'' (IntVal 2))"
    by (rule authenticate_anonymous) (rule disjI2 [OF b])
  show ?thesis by (intro conjI a b c d)
qed

subsection \<open>The gate \<open>requireAuthentication\<close>\<close>

text \<open>
  C4. When the flag is false, the outcome is the same whatever the inner handler is (it
  is not called): the response is a redirect to \<open>/user/login\<close>, with the status 303 when
  no header had been written before. When the flag is true, the inner handler is called
  with the request and with a state that differs only by \<open>no-store\<close> added to the header
  \<open>Cache-Control\<close> of the response.
\<close>

theorem requireAuthentication_gate:
  "(\<not> isAuthenticated r \<and> StatusCode (resp w) = None \<longrightarrow>
      (\<exists>w'. (\<forall>next. requireAuthentication app next r w = Returned w')
         \<and> StatusCode (resp w') = Some 303
         \<and> Header (resp w') ''Location'' = Some [''/user/login'']))
   \<and> (isAuthenticated r \<longrightarrow>
      (\<exists>w' vs. (\<forall>next. requireAuthentication app next r w = next r w')
         \<and> Header (resp w') ''Cache-Control'' = Some (vs @ [''no-store''])
         \<and> w' = w\<lparr>resp := (resp w)\<lparr>Header :=
                    (Header (resp w))(''Cache-Control'' \<mapsto> vs @ [''no-store''])\<rparr>\<rparr>))"
proof (intro conjI impI)
  assume a: "\<not> isAuthenticated r \<and> StatusCode (resp w) = None"
  let ?w' = "w\<lparr>resp := http_Redirect (resp w) r ''/user/login'' 303\<rparr>"
  have 1: "\<forall>next. requireAuthentication app next r w = Returned ?w'"
    using a by (simp add: requireAuthentication_def)
  have 2: "StatusCode (resp ?w') = Some 303"
    using a by (simp add: StatusCode_http_Redirect)
  have 3: "Header (resp ?w') ''Location'' = Some [''/user/login'']"
    by (simp add: Location_http_Redirect)
  show "\<exists>w'. (\<forall>next. requireAuthentication app next r w = Returned w')
         \<and> StatusCode (resp w') = Some 303
         \<and> Header (resp w') ''Location'' = Some [''/user/login'']"
    by (rule exI [of _ ?w']) (intro conjI 1 2 3)
next
  assume a: "isAuthenticated r"
  let ?vs = "case Header (resp w) ''Cache-Control'' of None \<Rightarrow> [] | Some vs \<Rightarrow> vs"
  let ?w' = "w\<lparr>resp := Header_Add ''Cache-Control'' ''no-store'' (resp w)\<rparr>"
  have 1: "\<forall>next. requireAuthentication app next r w = next r ?w'"
    using a by (simp add: requireAuthentication_def)
  have 2: "Header (resp ?w') ''Cache-Control'' = Some (?vs @ [''no-store''])"
    by (simp add: Header_Add_def)
  have 3: "?w' = w\<lparr>resp := (resp w)\<lparr>Header :=
                    (Header (resp w))(''Cache-Control'' \<mapsto> ?vs @ [''no-store''])\<rparr>\<rparr>"
    by (simp add: Header_Add_def)
  show "\<exists>w' vs. (\<forall>next. requireAuthentication app next r w = next r w')
         \<and> Header (resp w') ''Cache-Control'' = Some (vs @ [''no-store''])
         \<and> w' = w\<lparr>resp := (resp w)\<lparr>Header :=
                    (Header (resp w))(''Cache-Control'' \<mapsto> vs @ [''no-store''])\<rparr>\<rparr>"
    by (rule exI [of _ ?w'], rule exI [of _ ?vs]) (intro conjI 1 2 3)
qed

theorem requireAuthentication_gate_witness:
  "\<not> isAuthenticated exampleGet \<and> StatusCode (resp exampleWorld) = None
   \<and> isAuthenticated (WithValue exampleGet isAuthenticatedContextKey (BoolVal True))
   \<and> (\<exists>w'. requireAuthentication exampleApp exampleHandler exampleGet exampleWorld = Returned w'
         \<and> StatusCode (resp w') = Some 303
         \<and> Header (resp w') ''Location'' = Some [''/user/login''])
   \<and> (\<exists>w' vs. requireAuthentication exampleApp exampleHandler
                  (WithValue exampleGet isAuthenticatedContextKey (BoolVal True)) exampleWorld
                = exampleHandler (WithValue exampleGet isAuthenticatedContextKey (BoolVal True)) w'
         \<and> Header (resp w') ''Cache-Control'' = Some (vs @ [''no-store'']))"
proof -
  let ?auth = "WithValue exampleGet isAuthenticatedContextKey (BoolVal True)"
  have a: "\<not> isAuthenticated exampleGet"
    by (simp add: isAuthenticated_def exampleGet_def)
  have f: "StatusCode (resp exampleWorld) = None"
    by (rule exampleWorld_fresh)
  have b: "isAuthenticated ?auth"
    by (simp add: isAuthenticated_def WithValue_def)
  have g1: "\<exists>w'. (\<forall>next. requireAuthentication exampleApp next exampleGet exampleWorld = Returned w')
         \<and> StatusCode (resp w') = Some 303
         \<and> Header (resp w') ''Location'' = Some [''/user/login'']"
    by (rule requireAuthentication_gate [where r = exampleGet and w = exampleWorld
          and app = exampleApp, THEN conjunct1, THEN mp, OF conjI [OF a f]])
  have g2: "\<exists>w' vs. (\<forall>next. requireAuthentication exampleApp next ?auth exampleWorld = next ?auth w')
         \<and> Header (resp w') ''Cache-Control'' = Some (vs @ [''no-store''])
         \<and> w' = exampleWorld\<lparr>resp := (resp exampleWorld)\<lparr>Header :=
                    (Header (resp exampleWorld))(''Cache-Control'' \<mapsto> vs @ [''no-store''])\<rparr>\<rparr>"
    by (rule requireAuthentication_gate [where r = ?auth and w = exampleWorld
          and app = exampleApp, THEN conjunct2, THEN mp, OF b])
  from g1 obtain w1 where
    w1: "\<forall>next. requireAuthentication exampleApp next exampleGet exampleWorld = Returned w1"
      "StatusCode (resp w1) = Some 303" "Header (resp w1) ''Location'' = Some [''/user/login'']"
    by (elim exE conjE)
  from g2 obtain w2 vs where
    w2: "\<forall>next. requireAuthentication exampleApp next ?auth exampleWorld = next ?auth w2"
      "Header (resp w2) ''Cache-Control'' = Some (vs @ [''no-store''])"
    by (elim exE conjE)
  have c: "\<exists>w'. requireAuthentication exampleApp exampleHandler exampleGet exampleWorld = Returned w'
         \<and> StatusCode (resp w') = Some 303
         \<and> Header (resp w') ''Location'' = Some [''/user/login'']"
    by (rule exI [of _ w1]) (intro conjI w1(1) [rule_format] w1(2) w1(3))
  have d: "\<exists>w' vs. requireAuthentication exampleApp exampleHandler ?auth exampleWorld
                = exampleHandler ?auth w'
         \<and> Header (resp w') ''Cache-Control'' = Some (vs @ [''no-store''])"
    by (rule exI [of _ w2], rule exI [of _ vs]) (intro conjI w2(1) [rule_format] w2(2))
  show ?thesis by (intro conjI a f b c d)
qed

subsection \<open>The recovery \<open>recoverPanic\<close>\<close>





subsection \<open>The CSRF guard \<open>noSurf\<close>\<close>

lemma csrfCheck_reject:
  assumes "Method r \<notin> set safeMethods" and "\<not> verifyToken tok (extractToken r)"
  shows "csrfCheck next tok r w = Returned (w\<lparr>resp := http_Error (resp w) [] FailureCode\<rparr>)"
  using assms by (simp add: csrfCheck_def)

lemma PostFormValue_WithValue: "PostFormValue (WithValue r key v) k = PostFormValue r k"
  by (simp add: PostFormValue_def WithValue_def)

lemma extractToken_WithValue: "extractToken (WithValue r key v) = extractToken r"
proof -
  have "ReqHeader (WithValue r key v) = ReqHeader r" by (simp add: WithValue_def)
  then show ?thesis
    by (simp add: extractToken_def PostFormValue_WithValue split: option.splits list.splits)
qed

lemma Method_WithValue: "Method (WithValue r key v) = Method r"
  by (simp add: WithValue_def)

lemma verifyToken_mismatch:
  "sent = [] \<or> Some sent \<noteq> cookie \<Longrightarrow>
   \<not> verifyToken (case cookie of Some v \<Rightarrow> v | None \<Rightarrow> []) sent"
  by (auto simp: verifyToken_def tokenLength_def split: option.splits)

text \<open>
  C2, as the code has it. A request whose method is not safe, and whose sent token is
  missing or is not the token of the cookie, does not reach the wrapped handler: the
  outcome is the same for every handler. The library's failure handler answers it with
  the status 400 (Bad Request, not 403); nothing is logged and the session is not
  changed. (The random source is needed only when the cookie holds no
  token, for the new one; the status is that of a response on which no header had been
  written.)
\<close>

theorem noSurf_rejects_bad_token:
  assumes unsafe: "Method r \<notin> set safeMethods"
    and bad: "extractToken r = [] \<or> Some (extractToken r) \<noteq> Cookies r ''csrf_token''"
    and rand: "length (cookieToken r) = tokenLength \<or> entropy w \<noteq> []"
    and fresh: "StatusCode (resp w) = None"
  shows "\<exists>w'. (\<forall>next. noSurf next r w = Returned w')
           \<and> StatusCode (resp w') = Some 400
           \<and> errorLog w' = errorLog w \<and> sessionValues w' = sessionValues w"
proof -
  let ?tok = "cookieToken r"
  have nv: "\<not> verifyToken ?tok (extractToken r)"
    unfolding cookieToken_def using bad by (rule verifyToken_mismatch)
  let ?w1 = "w\<lparr>resp := Header_Add ''Vary'' ''Cookie'' (resp w)\<rparr>"
  have rej: "csrfCheck h ?tok (WithValue r nosurfContextKey v) w0
             = Returned (w0\<lparr>resp := http_Error (resp w0) [] FailureCode\<rparr>)" for h v w0
    by (rule csrfCheck_reject) (simp_all add: Method_WithValue extractToken_WithValue unsafe nv)
  show ?thesis
  proof (cases "length ?tok = tokenLength")
    case True
    let ?w' = "?w1\<lparr>resp := http_Error (resp ?w1) [] FailureCode\<rparr>"
    have a: "\<forall>next. noSurf next r w = Returned ?w'"
      using True rej by (simp add: noSurf_def csrfHandler_def Let_def cookieToken_def)
    have b: "StatusCode (resp ?w') = Some 400"
      using fresh by (simp add: http_Error_fresh Header_Add_def FailureCode_def)
    have d: "errorLog ?w' = errorLog w" by simp
    have e: "sessionValues ?w' = sessionValues w" by simp
    show ?thesis by (rule exI [of _ ?w']) (intro conjI a b d e)
  next
    case False
    with rand obtain t ts where ent: "entropy w = t # ts" by (cases "entropy w") auto
    let ?w2 = "?w1\<lparr>entropy := ts,
                      resp := Header_Add ''Set-Cookie''
                        (''csrf_token='' @ t @ ''; Path=/; HttpOnly; Secure'') (resp ?w1)\<rparr>"
    let ?w' = "?w2\<lparr>resp := http_Error (resp ?w2) [] FailureCode\<rparr>"
    have a: "\<forall>next. noSurf next r w = Returned ?w'"
      using False ent rej by (simp add: noSurf_def csrfHandler_def Let_def cookieToken_def)
    have b: "StatusCode (resp ?w') = Some 400"
      using fresh by (simp add: http_Error_fresh Header_Add_def FailureCode_def)
    have d: "errorLog ?w' = errorLog w" by simp
    have e: "sessionValues ?w' = sessionValues w" by simp
    show ?thesis by (rule exI [of _ ?w']) (intro conjI a b d e)
  qed
qed

lemma examplePost_facts:
  "Method examplePost \<notin> set safeMethods"
  "extractToken examplePost = []"
  "length (cookieToken examplePost) = tokenLength"
  "StatusCode (resp exampleWorld) = None"
  by (simp_all add: examplePost_def safeMethods_def extractToken_def PostFormValue_def
      cookieToken_def tokenLength_def exampleWorld_def newResponseWriter_def)

theorem noSurf_rejects_bad_token_witness:
  "Method examplePost \<notin> set safeMethods \<and> extractToken examplePost = []
   \<and> (\<exists>w'. noSurf exampleHandler examplePost exampleWorld = Returned w'
         \<and> StatusCode (resp w') = Some 400)"
proof -
  have "\<exists>w'. (\<forall>next. noSurf next examplePost exampleWorld = Returned w')
           \<and> StatusCode (resp w') = Some 400
           \<and> errorLog w' = errorLog exampleWorld \<and> sessionValues w' = sessionValues exampleWorld"
    by (rule noSurf_rejects_bad_token) (simp_all add: examplePost_facts)
  then obtain w' where "\<forall>next. noSurf next examplePost exampleWorld = Returned w'"
    and "StatusCode (resp w') = Some 400" by (elim exE conjE)
  then have "noSurf exampleHandler examplePost exampleWorld = Returned w' \<and> StatusCode (resp w') = Some 400"
    by simp
  then have "\<exists>w'. noSurf exampleHandler examplePost exampleWorld = Returned w' \<and> StatusCode (resp w') = Some 400"
    by (rule exI)
  then show ?thesis using examplePost_facts(1,2) by simp
qed

text \<open>
  The outcome of the CSRF handler on \<open>examplePost\<close>, which sends no token, computed
  directly.
\<close>

lemma noSurf_examplePost:
  "noSurf exampleHandler examplePost exampleWorld
     = Returned (exampleWorld\<lparr>resp :=
         http_Error (Header_Add ''Vary'' ''Cookie'' (resp exampleWorld)) [] FailureCode\<rparr>)"
proof -
  let ?w1 = "exampleWorld\<lparr>resp := Header_Add ''Vary'' ''Cookie'' (resp exampleWorld)\<rparr>"
  have "csrfCheck exampleHandler (cookieToken examplePost)
          (WithValue examplePost nosurfContextKey (StringVal (cookieToken examplePost))) ?w1
        = Returned (?w1\<lparr>resp := http_Error (resp ?w1) [] FailureCode\<rparr>)"
  proof (rule csrfCheck_reject)
    show "Method (WithValue examplePost nosurfContextKey (StringVal (cookieToken examplePost)))
          \<notin> set safeMethods"
      by (simp only: Method_WithValue examplePost_facts(1)) simp
    have "cookieToken examplePost \<noteq> []"
      using examplePost_facts(3) by (auto simp: tokenLength_def)
    then show "\<not> verifyToken (cookieToken examplePost)
          (extractToken (WithValue examplePost nosurfContextKey
             (StringVal (cookieToken examplePost))))"
      by (simp add: extractToken_WithValue examplePost_facts(2) verifyToken_def)
  qed
  then show ?thesis
    using examplePost_facts(3) by (simp add: noSurf_def csrfHandler_def Let_def)
qed

text \<open>
  C2, as the claim states it, fails: \<open>examplePost\<close> is a POST that sends no token, the CSRF
  handler returns without calling the handler, and the status of the response is 400,
  not a 403.
\<close>

theorem noSurf_status_is_400_not_403:
  "Method examplePost \<notin> set safeMethods
   \<and> extractToken examplePost = []
   \<and> didReturn (noSurf exampleHandler examplePost exampleWorld)
   \<and> StatusCode (resp (outcomeWorld (noSurf exampleHandler examplePost exampleWorld))) = Some 400
   \<and> StatusCode (resp (outcomeWorld (noSurf exampleHandler examplePost exampleWorld))) \<noteq> Some 403"
proof -
  have s: "StatusCode (resp (outcomeWorld (noSurf exampleHandler examplePost exampleWorld)))
           = Some 400"
    by (simp add: noSurf_examplePost http_Error_fresh Header_Add_def exampleWorld_fresh
        FailureCode_def)
  have d: "didReturn (noSurf exampleHandler examplePost exampleWorld)"
    by (simp add: noSurf_examplePost)
  have n: "StatusCode (resp (outcomeWorld (noSurf exampleHandler examplePost exampleWorld)))
           \<noteq> Some 403"
    using s by simp
  show ?thesis by (intro conjI examplePost_facts(1,2) d s n)
qed


section \<open>Properties of the string functions\<close>

subsection \<open>Strings with ASCII ends\<close>

text \<open>
  A string that begins and ends with an ASCII byte that is not white space is left as it
  is by \<open>TrimSpace\<close>, so it is not blank.
\<close>

lemma indexFunc_first:
  "s \<noteq> [] \<Longrightarrow> f (fst (DecodeRuneInString s)) = truth \<Longrightarrow> indexFunc s f truth = Some 0"
  by (subst indexFunc.simps) simp

lemma lastIndexFunc_last:
  "s \<noteq> [] \<Longrightarrow> f (fst (DecodeLastRuneInString s)) = truth \<Longrightarrow>
   lastIndexFunc s f truth = Some (length s - snd (DecodeLastRuneInString s))"
  by (subst lastIndexFunc.simps) simp

lemma DecodeRuneInString_ascii:
  "(of_char c :: nat) < 0x80 \<Longrightarrow> DecodeRuneInString (c # t) = (of_char c, 1)"
  by (simp add: Let_def)

lemma DecodeLastRuneInString_ascii:
  "s \<noteq> [] \<Longrightarrow> (of_char (last s) :: nat) < 0x80 \<Longrightarrow>
   DecodeLastRuneInString s = (of_char (last s), 1)"
  by (simp add: DecodeLastRuneInString_def)

lemma TrimSpace_ascii_ends:
  assumes "(of_char c :: nat) < 0x80" "\<not> IsSpace (of_char c)"
    and "(of_char (last (c # t)) :: nat) < 0x80" "\<not> IsSpace (of_char (last (c # t)))"
  shows "TrimSpace (c # t) = c # t"
proof -
  let ?s = "c # t"
  have i: "indexFunc ?s IsSpace False = Some 0"
    by (rule indexFunc_first) (simp_all add: DecodeRuneInString_ascii assms del: DecodeRuneInString.simps)
  have l: "TrimLeftFunc ?s IsSpace = ?s"
    by (simp add: TrimLeftFunc_def i)
  have dl: "DecodeLastRuneInString ?s = (of_char (last ?s), 1)"
    by (rule DecodeLastRuneInString_ascii) (simp, rule assms(3))
  have j: "lastIndexFunc ?s IsSpace False = Some (length ?s - 1)"
    using lastIndexFunc_last [of ?s IsSpace False] assms(4)
    by (simp add: dl del: last.simps)
  have n: "?s ! length t = last ?s"
    by (simp add: last_conv_nth del: last.simps)
  have r: "TrimRightFunc ?s IsSpace = ?s"
    unfolding TrimRightFunc_def j using assms(3) by (simp add: n del: last.simps)
  show ?thesis by (simp add: TrimSpace_def TrimFunc_def l r)
qed

lemma NotBlank_ascii_ends:
  assumes "(of_char c :: nat) < 0x80" "\<not> IsSpace (of_char c)"
    and "(of_char (last (c # t)) :: nat) < 0x80" "\<not> IsSpace (of_char (last (c # t)))"
  shows "NotBlank (c # t)"
  using TrimSpace_ascii_ends [OF assms] by (simp add: NotBlank_def)


subsection \<open>Decoding what was encoded\<close>

text \<open>
  The decoder reads back each Unicode scalar value from its UTF-8 encoding, with the width
  of the encoding, whatever follows it.
\<close>

lemma byte_char: "n < 256 \<Longrightarrow> (of_char (char_of n) :: nat) = n"
  by simp

lemma mod_offset:
  fixes q :: nat
  assumes "a = k * n" "q < n"
  shows "(a + q) mod n = q"
  using assms by simp

lemma Decode_two_bytes:
  assumes "(of_char c0 :: nat) = b0" "0xC2 \<le> b0" "b0 < 0xE0"
    and "(of_char c1 :: nat) = b1" "0x80 \<le> b1" "b1 \<le> 0xBF"
  shows "DecodeRuneInString (c0 # c1 # t) = ((b0 mod 32) * 64 + b1 mod 64, 2)"
  using assms
  by (simp add: Let_def accepted_def acceptLo_def acceptHi_def contBits_def)

lemma Decode_one_byte:
  assumes "(of_char c0 :: nat) = b0" "b0 < 0x80"
  shows "DecodeRuneInString (c0 # t) = (b0, 1)"
  using assms by (simp add: Let_def)

lemma Decode_three_bytes:
  assumes "(of_char c0 :: nat) = b0" "0xE0 \<le> b0" "b0 < 0xF0"
    and "(of_char c1 :: nat) = b1" "acceptLo b0 \<le> b1" "b1 \<le> acceptHi b0"
    and "(of_char c2 :: nat) = b2" "0x80 \<le> b2" "b2 \<le> 0xBF"
  shows "DecodeRuneInString (c0 # c1 # c2 # t)
         = ((b0 mod 16) * 4096 + (b1 mod 64) * 64 + b2 mod 64, 3)"
  using assms
  by (simp add: Let_def accepted_def isCont_def contBits_def)

lemma Decode_four_bytes:
  assumes "(of_char c0 :: nat) = b0" "0xF0 \<le> b0" "b0 \<le> 0xF4"
    and "(of_char c1 :: nat) = b1" "acceptLo b0 \<le> b1" "b1 \<le> acceptHi b0"
    and "(of_char c2 :: nat) = b2" "0x80 \<le> b2" "b2 \<le> 0xBF"
    and "(of_char c3 :: nat) = b3" "0x80 \<le> b3" "b3 \<le> 0xBF"
  shows "DecodeRuneInString (c0 # c1 # c2 # c3 # t)
         = ((b0 mod 8) * 262144 + (b1 mod 64) * 4096 + (b2 mod 64) * 64 + b3 mod 64, 4)"
  using assms
  by (simp add: Let_def accepted_def isCont_def contBits_def)

lemma three_digits_base_64:
  fixes r :: nat
  shows "r = 4096 * (r div 4096) + 64 * (r div 64 mod 64) + r mod 64"
proof -
  have "r mod 4096 = 64 * (r div 64 mod 64) + r mod 64"
    using mod_mult2_eq [of r 64 64] by simp
  moreover have "r = 4096 * (r div 4096) + r mod 4096" by simp
  ultimately show ?thesis by simp
qed

lemma four_digits_base_64:
  fixes r :: nat
  shows "r = 262144 * (r div 262144) + 4096 * (r div 4096 mod 64)
             + 64 * (r div 64 mod 64) + r mod 64"
proof -
  have "r mod 262144 = 4096 * (r div 4096 mod 64) + r mod 4096"
    using mod_mult2_eq [of r 4096 64] by simp
  moreover have "r mod 4096 = 64 * (r div 64 mod 64) + r mod 64"
    using mod_mult2_eq [of r 64 64] by simp
  moreover have "r = 262144 * (r div 262144) + r mod 262144" by simp
  ultimately show ?thesis by simp
qed

lemma Decode_encode_1:
  fixes r :: nat
  assumes "r < 0x80"
  shows "DecodeRuneInString (encodeRune r @ t) = (r, 1)"
proof -
  have e: "encodeRune r @ t = char_of r # t" using assms by (simp add: encodeRune_def)
  have b: "(of_char (char_of r) :: nat) = r" using assms by (intro byte_char) simp
  show ?thesis unfolding e by (rule Decode_one_byte [OF b assms])
qed

lemma Decode_encode_2:
  fixes r :: nat
  assumes lo: "0x80 \<le> r" and hi: "r < 0x800"
  shows "DecodeRuneInString (encodeRune r @ t) = (r, 2)"
proof -
  define q where "q = r div 64"
  define m where "m = r mod 64"
  have r: "r = 64 * q + m" by (simp add: q_def m_def)
  have m: "m < 64" by (simp add: m_def)
  have q: "2 \<le> q" "q < 32" using lo hi r m by arith+
  have e: "encodeRune r @ t = char_of (0xC0 + q) # char_of (0x80 + m) # t"
    using lo hi by (simp add: encodeRune_def q_def m_def)
  have b0: "(of_char (char_of (0xC0 + q)) :: nat) = 0xC0 + q"
    using q by (intro byte_char) simp
  have b1: "(of_char (char_of (0x80 + m)) :: nat) = 0x80 + m"
    using m by (intro byte_char) simp
  have d: "DecodeRuneInString (char_of (0xC0 + q) # char_of (0x80 + m) # t)
           = (((0xC0 + q) mod 32) * 64 + (0x80 + m) mod 64, 2)"
    using q m by (intro Decode_two_bytes [OF b0 _ _ b1]) simp_all
  have v0: "(0xC0 + q) mod 32 = q"
    by (rule mod_offset [where k = 6]) (simp_all add: q)
  have v1: "(0x80 + m) mod 64 = m"
    by (rule mod_offset [where k = 2]) (simp_all add: m)
  show ?thesis unfolding e d v0 v1 using r by simp
qed

lemma Decode_encode_3:
  fixes r :: nat
  assumes lo: "0x800 \<le> r" and hi: "r < 0x10000"
    and ns: "r < 0xD800 \<or> 0xE000 \<le> r"
  shows "DecodeRuneInString (encodeRune r @ t) = (r, 3)"
proof -
  define a where "a = r div 4096"
  define b where "b = r div 64 mod 64"
  define c where "c = r mod 64"
  have r: "r = 4096 * a + 64 * b + c"
    unfolding a_def b_def c_def by (rule three_digits_base_64)
  have bc: "b < 64" "c < 64" by (simp_all add: b_def c_def)
  have a: "a < 16" using hi r bc by arith
  have lo0: "a = 0 \<longrightarrow> 32 \<le> b" using lo r bc by arith
  have hi13: "a = 13 \<longrightarrow> b < 32" using ns r bc by arith
  have e: "encodeRune r @ t
           = char_of (0xE0 + a) # char_of (0x80 + b) # char_of (0x80 + c) # t"
    using lo hi by (simp add: encodeRune_def a_def b_def c_def)
  have b0: "(of_char (char_of (0xE0 + a)) :: nat) = 0xE0 + a"
    using a by (intro byte_char) simp
  have b1: "(of_char (char_of (0x80 + b)) :: nat) = 0x80 + b"
    using bc by (intro byte_char) simp
  have b2: "(of_char (char_of (0x80 + c)) :: nat) = 0x80 + c"
    using bc by (intro byte_char) simp
  have al: "acceptLo (0xE0 + a) \<le> 0x80 + b"
    using lo0 a by (simp add: acceptLo_def)
  have ah: "0x80 + b \<le> acceptHi (0xE0 + a)"
    using hi13 bc a by (auto simp: acceptHi_def)
  have d: "DecodeRuneInString (char_of (0xE0 + a) # char_of (0x80 + b) # char_of (0x80 + c) # t)
           = (((0xE0 + a) mod 16) * 4096 + ((0x80 + b) mod 64) * 64 + (0x80 + c) mod 64, 3)"
    using a bc by (intro Decode_three_bytes [OF b0 _ _ b1 al ah b2]) simp_all
  have v0: "(0xE0 + a) mod 16 = a"
    by (rule mod_offset [where k = 14]) (simp_all add: a)
  have v1: "(0x80 + b) mod 64 = b"
    by (rule mod_offset [where k = 2]) (simp_all add: bc)
  have v2: "(0x80 + c) mod 64 = c"
    by (rule mod_offset [where k = 2]) (simp_all add: bc)
  show ?thesis unfolding e d v0 v1 v2 using r by simp
qed

lemma Decode_encode_4:
  fixes r :: nat
  assumes lo: "0x10000 \<le> r" and hi: "r \<le> 0x10FFFF"
  shows "DecodeRuneInString (encodeRune r @ t) = (r, 4)"
proof -
  define a where "a = r div 262144"
  define b where "b = r div 4096 mod 64"
  define c where "c = r div 64 mod 64"
  define d where "d = r mod 64"
  have r: "r = 262144 * a + 4096 * b + 64 * c + d"
    unfolding a_def b_def c_def d_def by (rule four_digits_base_64)
  have bcd: "b < 64" "c < 64" "d < 64" by (simp_all add: b_def c_def d_def)
  have a: "a \<le> 4" using hi r bcd by arith
  have lo0: "a = 0 \<longrightarrow> 16 \<le> b" using lo r bcd by arith
  have hi4: "a = 4 \<longrightarrow> b < 16" using hi r bcd by arith
  have e: "encodeRune r @ t
           = char_of (0xF0 + a) # char_of (0x80 + b) # char_of (0x80 + c)
               # char_of (0x80 + d) # t"
    using lo by (simp add: encodeRune_def a_def b_def c_def d_def)
  have b0: "(of_char (char_of (0xF0 + a)) :: nat) = 0xF0 + a"
    using a by (intro byte_char) simp
  have b1: "(of_char (char_of (0x80 + b)) :: nat) = 0x80 + b"
    using bcd by (intro byte_char) simp
  have b2: "(of_char (char_of (0x80 + c)) :: nat) = 0x80 + c"
    using bcd by (intro byte_char) simp
  have b3: "(of_char (char_of (0x80 + d)) :: nat) = 0x80 + d"
    using bcd by (intro byte_char) simp
  have al: "acceptLo (0xF0 + a) \<le> 0x80 + b"
    using lo0 a by (simp add: acceptLo_def)
  have ah: "0x80 + b \<le> acceptHi (0xF0 + a)"
    using hi4 bcd a by (auto simp: acceptHi_def)
  have dd: "DecodeRuneInString
             (char_of (0xF0 + a) # char_of (0x80 + b) # char_of (0x80 + c)
               # char_of (0x80 + d) # t)
           = (((0xF0 + a) mod 8) * 262144 + ((0x80 + b) mod 64) * 4096
               + ((0x80 + c) mod 64) * 64 + (0x80 + d) mod 64, 4)"
    using a bcd by (intro Decode_four_bytes [OF b0 _ _ b1 al ah b2 _ _ b3]) simp_all
  have v0: "(0xF0 + a) mod 8 = a"
    by (rule mod_offset [where k = 30]) (use a in simp_all)
  have v1: "(0x80 + b) mod 64 = b"
    by (rule mod_offset [where k = 2]) (simp_all add: bcd)
  have v2: "(0x80 + c) mod 64 = c"
    by (rule mod_offset [where k = 2]) (simp_all add: bcd)
  have v3: "(0x80 + d) mod 64 = d"
    by (rule mod_offset [where k = 2]) (simp_all add: bcd)
  show ?thesis unfolding e dd v0 v1 v2 v3 using r by simp
qed

lemma length_encodeRune:
  "length (encodeRune r) = (if r < 0x80 then 1 else if r < 0x800 then 2
                            else if r < 0x10000 then 3 else 4)"
  by (simp add: encodeRune_def)

lemma Decode_encode:
  assumes "validRune r"
  shows "DecodeRuneInString (encodeRune r @ t) = (r, length (encodeRune r))"
proof -
  consider "r < 0x80" | "0x80 \<le> r" "r < 0x800" | "0x800 \<le> r" "r < 0x10000"
    | "0x10000 \<le> r"
    by linarith
  then show ?thesis
  proof cases
    case 1
    then show ?thesis by (simp add: Decode_encode_1 length_encodeRune)
  next
    case 2
    then show ?thesis by (simp add: Decode_encode_2 length_encodeRune)
  next
    case 3
    moreover have "r < 0xD800 \<or> 0xE000 \<le> r"
      using assms by (auto simp: validRune_def)
    ultimately show ?thesis by (simp add: Decode_encode_3 length_encodeRune)
  next
    case 4
    moreover have "r \<le> 0x10FFFF"
      using assms 4 by (auto simp: validRune_def)
    ultimately show ?thesis by (simp add: Decode_encode_4 length_encodeRune)
  qed
qed

lemma encodeRune_not_Nil: "encodeRune r \<noteq> []"
  by (simp add: encodeRune_def)

lemma runes_Nil: "runes [] = []"
  by (simp add: runes.simps)

lemma runes_encode:
  assumes "validRune r"
  shows "runes (encodeRune r @ t) = r # runes t"
proof -
  have "encodeRune r @ t \<noteq> []" by (simp add: encodeRune_not_Nil)
  then show ?thesis
    by (subst runes.simps) (simp add: Decode_encode [OF assms])
qed

lemma runes_utf8: "list_all validRune rs \<Longrightarrow> runes (utf8 rs) = rs"
proof (induction rs)
  case Nil
  then show ?case by (simp add: utf8_def runes_Nil)
next
  case (Cons r rs)
  have "utf8 (r # rs) = encodeRune r @ utf8 rs" by (simp add: utf8_def)
  then show ?case using Cons by (simp add: runes_encode)
qed

lemma RuneCountInString_runes: "RuneCountInString s = length (runes s)"
proof (induction s rule: RuneCountInString.induct)
  case (1 s)
  show ?case
  proof (cases "s = []")
    case True
    then show ?thesis by (simp add: RuneCountInString.simps runes.simps)
  next
    case False
    have "RuneCountInString s = Suc (RuneCountInString (drop (snd (DecodeRuneInString s)) s))"
      using False by (subst RuneCountInString.simps) simp
    moreover have "runes s = fst (DecodeRuneInString s) # runes (drop (snd (DecodeRuneInString s)) s)"
      using False by (subst runes.simps) simp
    ultimately show ?thesis using "1.IH" [OF False] by simp
  qed
qed

subsection \<open>Trimming\<close>

text \<open>
  A decoded rune other than \<open>RuneError\<close> does not depend on the bytes after it, and the
  last rune, when it is not \<open>RuneError\<close>, is the rune decoded at its first byte. So a
  string whose runes from the back are all white space begins with white space, and
  trimming on the right cannot empty a string that begins with another rune.
\<close>

lemma Decode_append_valid:
  "fst (DecodeRuneInString s) \<noteq> RuneError \<Longrightarrow>
   DecodeRuneInString (s @ t) = DecodeRuneInString s"
  by (cases s) (auto simp: Let_def split: list.splits if_splits)

lemma DecodeLast_as_Decode:
  assumes "s \<noteq> []" "fst (DecodeLastRuneInString s) \<noteq> RuneError"
  shows "DecodeRuneInString (drop (length s - snd (DecodeLastRuneInString s)) s)
         = DecodeLastRuneInString s"
proof (cases "(of_char (last s) :: nat) < 0x80")
  case True
  have "drop (length (butlast s)) (butlast s @ [last s]) = [last s]" by simp
  then have l: "drop (length s - 1) s = [last s]"
    using assms(1) by simp
  have d: "DecodeLastRuneInString s = (of_char (last s), 1)"
    using assms(1) True by (simp add: DecodeLastRuneInString_def)
  show ?thesis unfolding d using l True by (simp add: Let_def)
next
  case False
  let ?start = "lastRuneStart s"
  let ?d = "DecodeRuneInString (drop ?start s)"
  have e: "?start + snd ?d = length s"
  proof (rule ccontr)
    assume "?start + snd ?d \<noteq> length s"
    then have "DecodeLastRuneInString s = (RuneError, 1)"
      using assms(1) False by (simp add: DecodeLastRuneInString_def Let_def)
    then show False using assms(2) by simp
  qed
  then have d: "DecodeLastRuneInString s = ?d"
    using assms(1) False by (simp add: DecodeLastRuneInString_def Let_def)
  have "length s - snd ?d = ?start" using e by simp
  then show ?thesis unfolding d by simp
qed

lemma indexFunc_Some:
  "indexFunc s f truth = Some i \<Longrightarrow>
   i < length s \<and> f (fst (DecodeRuneInString (drop i s))) = truth"
proof (induction s f truth arbitrary: i rule: indexFunc.induct)
  case (1 s f truth)
  let ?n = "snd (DecodeRuneInString s)"
  have ne: "s \<noteq> []"
    using "1.prems" by (subst (asm) indexFunc.simps) (simp split: if_splits)
  show ?case
  proof (cases "f (fst (DecodeRuneInString s)) = truth")
    case True
    then have "i = 0"
      using "1.prems" ne by (subst (asm) indexFunc.simps) simp
    then show ?thesis using True ne by simp
  next
    case False
    then obtain j where j: "indexFunc (drop ?n s) f truth = Some j" and i: "i = ?n + j"
      using "1.prems" ne by (subst (asm) indexFunc.simps) auto
    have ih: "j < length (drop ?n s) \<and> f (fst (DecodeRuneInString (drop j (drop ?n s)))) = truth"
      by (rule "1.IH" [OF ne False j])
    have "drop j (drop ?n s) = drop i s" by (simp add: i add.commute)
    then show ?thesis using ih i by auto
  qed
qed

lemma indexFunc_None:
  "indexFunc s f False = None \<longleftrightarrow> (\<forall>r \<in> set (runes s). f r)"
proof (induction s f "False" rule: indexFunc.induct)
  case (1 s f)
  show ?case
  proof (cases "s = []")
    case True
    then show ?thesis by (simp add: indexFunc.simps runes.simps)
  next
    case False
    let ?n = "snd (DecodeRuneInString s)"
    have r: "runes s = fst (DecodeRuneInString s) # runes (drop ?n s)"
      using False by (subst runes.simps) simp
    show ?thesis
    proof (cases "f (fst (DecodeRuneInString s))")
      case True
      have "indexFunc s f False = map_option (\<lambda>i. ?n + i) (indexFunc (drop ?n s) f False)"
        using False True by (subst indexFunc.simps) simp
      then have "indexFunc s f False = None \<longleftrightarrow> indexFunc (drop ?n s) f False = None"
        by simp
      also have "\<dots> \<longleftrightarrow> (\<forall>r \<in> set (runes (drop ?n s)). f r)"
        using "1.hyps" [OF False] True by simp
      finally show ?thesis using True r by simp
    next
      case nf: False
      have "indexFunc s f False = Some 0"
        using False nf by (subst indexFunc.simps) simp
      then show ?thesis using nf r by simp
    qed
  qed
qed

lemma lastIndexFunc_Some:
  "lastIndexFunc s f truth = Some i \<Longrightarrow> i < length s"
proof (induction s f truth rule: lastIndexFunc.induct)
  case (1 s f truth)
  have ne: "s \<noteq> []"
    using "1.prems" by (subst (asm) lastIndexFunc.simps) (simp split: if_splits)
  let ?k = "length s - snd (DecodeLastRuneInString s)"
  have k: "?k < length s"
    using DecodeLastRuneInString_size_pos [OF ne] ne by simp
  show ?case
  proof (cases "f (fst (DecodeLastRuneInString s)) = truth")
    case True
    then have "i = ?k"
      using "1.prems" ne by (subst (asm) lastIndexFunc.simps) simp
    then show ?thesis using k by simp
  next
    case False
    then have "lastIndexFunc (take ?k s) f truth = Some i"
      using "1.prems" ne by (subst (asm) lastIndexFunc.simps) simp
    then have "i < length (take ?k s)" by (rule "1.IH" [OF ne False])
    then show ?thesis by simp
  qed
qed

lemma lastIndexFunc_None:
  "\<not> f RuneError \<Longrightarrow> lastIndexFunc s f False = None \<Longrightarrow>
   s = [] \<or> f (fst (DecodeRuneInString s))"
proof (induction s f "False" rule: lastIndexFunc.induct)
  case (1 s f)
  show ?case
  proof (cases "s = []")
    case True
    then show ?thesis by simp
  next
    case False
    let ?k = "length s - snd (DecodeLastRuneInString s)"
    have fl: "f (fst (DecodeLastRuneInString s))"
    proof (rule ccontr)
      assume "\<not> f (fst (DecodeLastRuneInString s))"
      then have "lastIndexFunc s f False = Some ?k"
        using False by (subst lastIndexFunc.simps) simp
      then show False using "1.prems"(2) by simp
    qed
    have rest: "lastIndexFunc (take ?k s) f False = None"
      using "1.prems"(2) False fl by (subst (asm) lastIndexFunc.simps) simp
    have nr: "fst (DecodeLastRuneInString s) \<noteq> RuneError"
      using fl "1.prems"(1) by auto
    have dl: "DecodeRuneInString (drop ?k s) = DecodeLastRuneInString s"
      by (rule DecodeLast_as_Decode [OF False nr])
    have ih: "take ?k s = [] \<or> f (fst (DecodeRuneInString (take ?k s)))"
      using "1.hyps" [OF False _ "1.prems"(1) rest] fl by simp
    show ?thesis
    proof (cases "take ?k s = []")
      case True
      then have "?k = 0" using False by simp
      then have "DecodeRuneInString s = DecodeLastRuneInString s" using dl by simp
      then show ?thesis using fl by simp
    next
      case nt: False
      then have v: "f (fst (DecodeRuneInString (take ?k s)))" using ih by simp
      then have "fst (DecodeRuneInString (take ?k s)) \<noteq> RuneError"
        using "1.prems"(1) by auto
      then have "DecodeRuneInString (take ?k s @ drop ?k s) = DecodeRuneInString (take ?k s)"
        by (rule Decode_append_valid)
      then show ?thesis using v by simp
    qed
  qed
qed

lemma lastIndexFunc_Nil: "lastIndexFunc [] f truth = None"
  by (simp add: lastIndexFunc.simps)

lemma TrimRightFunc_not_Nil:
  assumes "lastIndexFunc t f False = Some i"
  shows "TrimRightFunc t f \<noteq> []"
proof -
  have i: "i < length t" using assms by (rule lastIndexFunc_Some)
  then have "drop i t \<noteq> []" by simp
  then have "0 < snd (DecodeRuneInString (drop i t))" by (rule DecodeRuneInString_size_pos)
  then show ?thesis using i assms by (auto simp: TrimRightFunc_def)
qed

lemma IsSpace_RuneError: "\<not> IsSpace RuneError"
  by (simp add: IsSpace_def RuneError_def)

lemma NotBlank_iff_runes: "NotBlank s \<longleftrightarrow> (\<exists>r \<in> set (runes s). \<not> IsSpace r)"
proof (cases "indexFunc s IsSpace False")
  case None
  then have "\<forall>r \<in> set (runes s). IsSpace r" by (simp add: indexFunc_None)
  moreover have "TrimSpace s = []"
    using None
    by (simp add: TrimSpace_def TrimFunc_def TrimLeftFunc_def TrimRightFunc_def lastIndexFunc_Nil)
  ultimately show ?thesis by (simp add: NotBlank_def)
next
  case (Some i)
  then have ex: "\<exists>r \<in> set (runes s). \<not> IsSpace r"
    using indexFunc_None [of s IsSpace] by auto
  let ?t = "drop i s"
  have i: "i < length s" "\<not> IsSpace (fst (DecodeRuneInString ?t))"
    using indexFunc_Some [OF Some] by simp_all
  have t: "TrimLeftFunc s IsSpace = ?t" using Some by (simp add: TrimLeftFunc_def)
  have ne: "?t \<noteq> []" using i by simp
  have "lastIndexFunc ?t IsSpace False \<noteq> None"
    using lastIndexFunc_None [where f = IsSpace and s = ?t, OF IsSpace_RuneError] ne i(2)
    by auto
  then obtain j where "lastIndexFunc ?t IsSpace False = Some j" by auto
  then have "TrimRightFunc ?t IsSpace \<noteq> []" by (rule TrimRightFunc_not_Nil)
  then have "NotBlank s" by (simp add: NotBlank_def TrimSpace_def TrimFunc_def t)
  then show ?thesis using ex by simp
qed

text \<open>
  C8. \<open>NotBlank\<close> holds exactly when \<open>TrimSpace\<close> leaves something, which is exactly when
  the string has a rune that is not white space. \<open>MinChars\<close> and \<open>MaxChars\<close> compare \<open>n\<close>
  with the number of runes of the string, as \<open>for range\<close> yields them; for the UTF-8
  encoding of a sequence of Unicode scalar values this is the number of code points of
  the sequence, not the number of bytes.
\<close>

theorem validator_predicates_count_code_points:
  "(NotBlank val \<longleftrightarrow> TrimSpace val \<noteq> [])
   \<and> (NotBlank val \<longleftrightarrow> (\<exists>r \<in> set (runes val). \<not> IsSpace r))
   \<and> MinChars val n = (n \<le> int (length (runes val)))
   \<and> MaxChars val n = (int (length (runes val)) \<le> n)
   \<and> (list_all validRune rs \<longrightarrow>
        runes (utf8 rs) = rs
        \<and> MinChars (utf8 rs) n = (n \<le> int (length rs))
        \<and> MaxChars (utf8 rs) n = (int (length rs) \<le> n))"
proof (intro conjI impI)
  show "NotBlank val \<longleftrightarrow> TrimSpace val \<noteq> []" by (simp add: NotBlank_def)
  show "NotBlank val \<longleftrightarrow> (\<exists>r \<in> set (runes val). \<not> IsSpace r)" by (rule NotBlank_iff_runes)
  show "MinChars val n = (n \<le> int (length (runes val)))"
    by (simp add: MinChars_def RuneCountInString_runes)
  show "MaxChars val n = (int (length (runes val)) \<le> n)"
    by (simp add: MaxChars_def RuneCountInString_runes)
next
  assume v: "list_all validRune rs"
  show "runes (utf8 rs) = rs" using v by (rule runes_utf8)
  show "MinChars (utf8 rs) n = (n \<le> int (length rs))"
    by (simp add: MinChars_def RuneCountInString_runes runes_utf8 [OF v])
  show "MaxChars (utf8 rs) n = (int (length rs) \<le> n)"
    by (simp add: MaxChars_def RuneCountInString_runes runes_utf8 [OF v])
qed

theorem validator_predicates_count_code_points_witness:
  "list_all validRune [0x48, 0xE9, 0x20AC]
   \<and> length (utf8 [0x48, 0xE9, 0x20AC]) = 6
   \<and> runes (utf8 [0x48, 0xE9, 0x20AC]) = [0x48, 0xE9, 0x20AC]
   \<and> MinChars (utf8 [0x48, 0xE9, 0x20AC]) 3
   \<and> MaxChars (utf8 [0x48, 0xE9, 0x20AC]) 3
   \<and> \<not> MinChars (utf8 [0x48, 0xE9, 0x20AC]) 4"
proof -
  have v: "list_all validRune [0x48, 0xE9, 0x20AC]"
    by (simp add: validRune_def)
  have l: "length (utf8 [0x48, 0xE9, 0x20AC]) = 6"
    by (simp add: utf8_def encodeRune_def)
  note a = validator_predicates_count_code_points [of "[]" 3 "[0x48, 0xE9, 0x20AC]",
      THEN conjunct2, THEN conjunct2, THEN conjunct2, THEN conjunct2, THEN mp, OF v]
  note b = validator_predicates_count_code_points [of "[]" 4 "[0x48, 0xE9, 0x20AC]",
      THEN conjunct2, THEN conjunct2, THEN conjunct2, THEN conjunct2, THEN mp, OF v]
  have r: "runes (utf8 [0x48, 0xE9, 0x20AC]) = [0x48, 0xE9, 0x20AC]"
    using a by (rule conjunct1)
  have m3: "MinChars (utf8 [0x48, 0xE9, 0x20AC]) 3"
    using a [THEN conjunct2, THEN conjunct1] by simp
  have x3: "MaxChars (utf8 [0x48, 0xE9, 0x20AC]) 3"
    using a [THEN conjunct2, THEN conjunct2] by simp
  have m4: "\<not> MinChars (utf8 [0x48, 0xE9, 0x20AC]) 4"
    using b [THEN conjunct2, THEN conjunct1] by simp
  show ?thesis by (intro conjI v l r m3 x3 m4)
qed


section \<open>Properties of the login handler\<close>

lemma decodePostForm_userLoginForm_zero:
  "decodePostForm_userLoginForm r = Inr form0 \<Longrightarrow>
   NonFieldErrors form0 = [] \<and> FieldErrors form0 = None"
  by (auto simp: decodePostForm_userLoginForm_def split: sum.splits)

lemma CheckField_ok: "ok \<Longrightarrow> CheckField v ok key message = v"
  by (simp add: CheckField_def)

lemma Valid_zero: "NonFieldErrors v = [] \<Longrightarrow> FieldErrors v = None \<Longrightarrow> Valid v"
  by (simp add: Valid_def)

lemma userLoginPost_validated:
  assumes dec: "decodePostForm_userLoginForm r = Inr form0"
    and ok: "NotBlank (Email form0)" "Matches (Email form0) (EmailRX app)"
      "NotBlank (Password form0)"
  shows "userLoginPost app r w =
     (case usersAuthenticate app (Email form0) (Password form0) of
        Inl err \<Rightarrow>
          if errors_Is err ErrInvalidCredentials then
            Returned (render app (snd (newTemplateData app r w)) 422 ''login.tmpl''
              ((fst (newTemplateData app r w))\<lparr>Form := LoginForm
                 (AddNonFieldError form0 ''Email or password is incorrect'')\<rparr>))
          else Returned (serverError app w err)
      | Inr uid \<Rightarrow>
          (case RenewToken app w of
             Inl err \<Rightarrow> Returned (serverError app w err)
           | Inr w1 \<Rightarrow>
               Returned ((Put w1 ''authenticatedUserID'' (IntVal uid))\<lparr>resp :=
                 http_Redirect (resp (Put w1 ''authenticatedUserID'' (IntVal uid))) r
                   ''/snippet/create'' 303\<rparr>)))"
proof -
  have z: "Valid form0"
    using decodePostForm_userLoginForm_zero [OF dec] by (simp add: Valid_zero)
  show ?thesis
    unfolding userLoginPost_def dec
    by (simp add: CheckField_ok ok z Let_def split_beta split: sum.splits)
qed



text \<open>
  The user model answers an unknown email and a wrong password with the same error.
\<close>

lemma UserModel_Authenticate_invalid_credentials:
  assumes "queryUserByEmail m email = Inl ErrNoRows
           \<or> (queryUserByEmail m email = Inr (uid, hashedPassword)
               \<and> CompareHashAndPassword m hashedPassword password
                   = Some ErrMismatchedHashAndPassword)"
  shows "UserModel_Authenticate m email password = Inl ErrInvalidCredentials"
  using assms by (auto simp: UserModel_Authenticate_def)




subsection \<open>A successful login\<close>

lemma SameOrigin_WithValue: "SameOrigin (WithValue r key v) = SameOrigin r"
  by (simp add: WithValue_def)

lemma noSurf_accepts:
  assumes "length (cookieToken r) = tokenLength" "SameOrigin r"
    "extractToken r = cookieToken r"
  shows "noSurf next r w =
     next (WithValue r nosurfContextKey (StringVal (cookieToken r)))
       (w\<lparr>resp := Header_Add ''Vary'' ''Cookie'' (resp w)\<rparr>)"
  using assms
  by (simp add: noSurf_def csrfHandler_def Let_def csrfCheck_def SameOrigin_WithValue
      extractToken_WithValue verifyToken_def)

lemma decodePostForm_userLoginForm_WithValue:
  "decodePostForm_userLoginForm (WithValue r key v) = decodePostForm_userLoginForm r"
  by (simp add: decodePostForm_userLoginForm_def WithValue_def)

lemma RenewToken_ok:
  assumes "sessionToken w = [] \<or> storeDelete app (sessionToken w) = None"
    and "entropy w = t # ts"
  shows "RenewToken app w = Inr (w\<lparr>sessionToken := t, entropy := ts\<rparr>)"
  using assms by (auto simp: RenewToken_def)

lemma userLoginPost_success:
  assumes dec: "decodePostForm_userLoginForm r = Inr form0"
    and ok: "NotBlank (Email form0)" "Matches (Email form0) (EmailRX app)"
      "NotBlank (Password form0)"
    and auth: "usersAuthenticate app (Email form0) (Password form0) = Inr uid"
    and del: "sessionToken w = [] \<or> storeDelete app (sessionToken w) = None"
    and ent: "entropy w = t # ts"
  shows "userLoginPost app r w =
     Returned (w\<lparr>sessionToken := t, entropy := ts,
                 sessionValues := (sessionValues w)(''authenticatedUserID'' \<mapsto> IntVal uid),
                 resp := http_Redirect (resp w) r ''/snippet/create'' 303\<rparr>)"
  by (simp add: userLoginPost_validated [OF dec ok] auth RenewToken_ok [OF del ent] Put_def)

lemma Header_http_Redirect_other:
  "key \<noteq> ''Location'' \<Longrightarrow> key \<noteq> ''Content-Type'' \<Longrightarrow>
   Header (http_Redirect rw r url code) key = Header rw key"
  by (simp add: http_Redirect_def Let_def Write_def WriteHeader_def Header_Set_def
      split: option.splits)

text \<open>
  C1, as the code has it. On a successful login (the form is decoded and passes its
  checks, \<open>Authenticate\<close> gives a user id, the store deletes the old session and the
  random source yields a token) the handler returns with the session token renewed to the
  new token, the user id stored in the session, and a redirect to \<open>/snippet/create\<close> (303
  when no header had been written). The CSRF token is not renewed: the handler leaves the
  header \<open>Set-Cookie\<close> as it was, and on every later request that carries a token of the
  right length in the cookie and sends the same token back, the pre-login token included,
  the CSRF handler calls the handler behind it.
\<close>

theorem userLoginPost_renews_session_token_only:
  assumes dec: "decodePostForm_userLoginForm r = Inr form0"
    and ok: "NotBlank (Email form0)" "Matches (Email form0) (EmailRX app)"
      "NotBlank (Password form0)"
    and auth: "usersAuthenticate app (Email form0) (Password form0) = Inr uid"
    and del: "sessionToken w = [] \<or> storeDelete app (sessionToken w) = None"
    and ent: "entropy w = t # ts"
  shows "\<exists>w'. userLoginPost app r w = Returned w'
     \<and> sessionToken w' = t
     \<and> sessionValues w' = (sessionValues w)(''authenticatedUserID'' \<mapsto> IntVal uid)
     \<and> Header (resp w') ''Location'' = Some [''/snippet/create'']
     \<and> (StatusCode (resp w) = None \<longrightarrow> StatusCode (resp w') = Some 303)
     \<and> Header (resp w') ''Set-Cookie'' = Header (resp w) ''Set-Cookie''
     \<and> (\<forall>r2 next. length (cookieToken r2) = tokenLength \<and> SameOrigin r2
            \<and> extractToken r2 = cookieToken r2 \<longrightarrow>
          noSurf next r2 (w'\<lparr>resp := newResponseWriter\<rparr>)
            = next (WithValue r2 nosurfContextKey (StringVal (cookieToken r2)))
                (w'\<lparr>resp := Header_Add ''Vary'' ''Cookie'' newResponseWriter\<rparr>))"
proof -
  let ?w' = "w\<lparr>sessionToken := t, entropy := ts,
                 sessionValues := (sessionValues w)(''authenticatedUserID'' \<mapsto> IntVal uid),
                 resp := http_Redirect (resp w) r ''/snippet/create'' 303\<rparr>"
  have 1: "userLoginPost app r w = Returned ?w'"
    by (rule userLoginPost_success [OF dec ok auth del ent])
  have 2: "sessionToken ?w' = t" by simp
  have 3: "sessionValues ?w' = (sessionValues w)(''authenticatedUserID'' \<mapsto> IntVal uid)"
    by simp
  have 4: "Header (resp ?w') ''Location'' = Some [''/snippet/create'']"
    by (simp add: Location_http_Redirect)
  have 5: "StatusCode (resp w) = None \<longrightarrow> StatusCode (resp ?w') = Some 303"
    by (simp add: StatusCode_http_Redirect)
  have 6: "Header (resp ?w') ''Set-Cookie'' = Header (resp w) ''Set-Cookie''"
    by (simp add: Header_http_Redirect_other)
  have 7: "\<forall>r2 next. length (cookieToken r2) = tokenLength \<and> SameOrigin r2
            \<and> extractToken r2 = cookieToken r2 \<longrightarrow>
          noSurf next r2 (?w'\<lparr>resp := newResponseWriter\<rparr>)
            = next (WithValue r2 nosurfContextKey (StringVal (cookieToken r2)))
                (?w'\<lparr>resp := Header_Add ''Vary'' ''Cookie'' newResponseWriter\<rparr>)"
  proof (intro allI impI)
    fix r2 :: Request and h :: Handler
    assume a: "length (cookieToken r2) = tokenLength \<and> SameOrigin r2
            \<and> extractToken r2 = cookieToken r2"
    have "noSurf h r2 (?w'\<lparr>resp := newResponseWriter\<rparr>)
          = h (WithValue r2 nosurfContextKey (StringVal (cookieToken r2)))
              ((?w'\<lparr>resp := newResponseWriter\<rparr>)\<lparr>resp := Header_Add ''Vary'' ''Cookie''
                 (resp (?w'\<lparr>resp := newResponseWriter\<rparr>))\<rparr>)"
      using a by (intro noSurf_accepts) simp_all
    then show "noSurf h r2 (?w'\<lparr>resp := newResponseWriter\<rparr>)
            = h (WithValue r2 nosurfContextKey (StringVal (cookieToken r2)))
                (?w'\<lparr>resp := Header_Add ''Vary'' ''Cookie'' newResponseWriter\<rparr>)"
      by simp
  qed
  show ?thesis by (rule exI [of _ ?w']) (intro conjI 1 2 3 4 5 6 7)
qed

lemma exampleLogin_facts:
  "decodePostForm_userLoginForm exampleLogin = Inr exampleForm"
  "NotBlank (Email exampleForm)"
  "Matches (Email exampleForm) (EmailRX exampleApp)"
  "NotBlank (Password exampleForm)"
  "usersAuthenticate exampleApp (Email exampleForm) (Password exampleForm) = Inr 1"
  "length (cookieToken exampleLogin) = tokenLength"
  "SameOrigin exampleLogin"
  "extractToken exampleLogin = cookieToken exampleLogin"
proof -
  show "decodePostForm_userLoginForm exampleLogin = Inr exampleForm"
    by (simp add: decodePostForm_userLoginForm_def exampleLogin_def exampleForm_def)
  show "NotBlank (Email exampleForm)"
    unfolding exampleForm_def
    by (simp, rule NotBlank_ascii_ends) (simp_all add: IsSpace_def)
  show "Matches (Email exampleForm) (EmailRX exampleApp)"
    by (simp add: Matches_def exampleForm_def exampleApp_def)
  show "NotBlank (Password exampleForm)"
    unfolding exampleForm_def
    by (simp, rule NotBlank_ascii_ends) (simp_all add: IsSpace_def)
  show "usersAuthenticate exampleApp (Email exampleForm) (Password exampleForm) = Inr 1"
    by (simp add: exampleForm_def exampleApp_def)
  show "length (cookieToken exampleLogin) = tokenLength"
    by (simp add: cookieToken_def exampleLogin_def tokenLength_def)
  show "SameOrigin exampleLogin"
    by (simp add: exampleLogin_def)
  show "extractToken exampleLogin = cookieToken exampleLogin"
    by (simp add: extractToken_def PostFormValue_def cookieToken_def exampleLogin_def)
qed

lemma exampleWorld_session:
  "storeDelete exampleApp (sessionToken exampleWorld) = None"
  "entropy exampleWorld
     = [''0123456789abcdef0123456789ABCDEF'', ''fedcba9876543210FEDCBA9876543210'']"
  "sessionToken exampleWorld = ''session-token-0''"
  by (simp_all add: exampleApp_def exampleWorld_def)

theorem userLoginPost_renews_session_token_only_witness:
  "decodePostForm_userLoginForm exampleLogin = Inr exampleForm
   \<and> NotBlank (Email exampleForm)
   \<and> Matches (Email exampleForm) (EmailRX exampleApp)
   \<and> NotBlank (Password exampleForm)
   \<and> usersAuthenticate exampleApp (Email exampleForm) (Password exampleForm) = Inr 1
   \<and> (\<exists>w'. userLoginPost exampleApp exampleLogin exampleWorld = Returned w'
        \<and> sessionToken w' = ''0123456789abcdef0123456789ABCDEF''
        \<and> sessionValues w' = (sessionValues exampleWorld)(''authenticatedUserID'' \<mapsto> IntVal 1)
        \<and> StatusCode (resp w') = Some 303
        \<and> Header (resp w') ''Set-Cookie'' = Header (resp exampleWorld) ''Set-Cookie'')"
proof -
  obtain w' where
    1: "userLoginPost exampleApp exampleLogin exampleWorld = Returned w'"
    and 2: "sessionToken w' = ''0123456789abcdef0123456789ABCDEF''"
    and 3: "sessionValues w' = (sessionValues exampleWorld)(''authenticatedUserID'' \<mapsto> IntVal 1)"
    and 5: "StatusCode (resp exampleWorld) = None \<longrightarrow> StatusCode (resp w') = Some 303"
    and 6: "Header (resp w') ''Set-Cookie'' = Header (resp exampleWorld) ''Set-Cookie''"
    using userLoginPost_renews_session_token_only [OF exampleLogin_facts(1)
        exampleLogin_facts(2) exampleLogin_facts(3) exampleLogin_facts(4)
        exampleLogin_facts(5) disjI2 [OF exampleWorld_session(1)] exampleWorld_session(2)]
    by (elim exE conjE)
  have s5: "StatusCode (resp w') = Some 303"
    using 5 exampleWorld_fresh(1) by (rule mp)
  have "\<exists>w'. userLoginPost exampleApp exampleLogin exampleWorld = Returned w'
        \<and> sessionToken w' = ''0123456789abcdef0123456789ABCDEF''
        \<and> sessionValues w' = (sessionValues exampleWorld)(''authenticatedUserID'' \<mapsto> IntVal 1)
        \<and> StatusCode (resp w') = Some 303
        \<and> Header (resp w') ''Set-Cookie'' = Header (resp exampleWorld) ''Set-Cookie''"
    by (rule exI [of _ w']) (intro conjI 1 2 3 s5 6)
  then show ?thesis
    by (intro conjI exampleLogin_facts(1) exampleLogin_facts(2) exampleLogin_facts(3)
        exampleLogin_facts(4) exampleLogin_facts(5))
qed

text \<open>
  A login through the CSRF handler, and a later POST that carries the token the client had
  before the login, computed directly.
\<close>

lemma exampleAfterLogin_eq:
  "noSurf (userLoginPost exampleApp) exampleLogin exampleWorld =
     Returned (exampleWorld\<lparr>sessionToken := ''0123456789abcdef0123456789ABCDEF'',
        entropy := [''fedcba9876543210FEDCBA9876543210''],
        sessionValues := (sessionValues exampleWorld)(''authenticatedUserID'' \<mapsto> IntVal 1),
        resp := http_Redirect (Header_Add ''Vary'' ''Cookie'' (resp exampleWorld))
                  (WithValue exampleLogin nosurfContextKey (StringVal (cookieToken exampleLogin)))
                  ''/snippet/create'' 303\<rparr>)"
proof -
  let ?r = "WithValue exampleLogin nosurfContextKey (StringVal (cookieToken exampleLogin))"
  let ?w = "exampleWorld\<lparr>resp := Header_Add ''Vary'' ''Cookie'' (resp exampleWorld)\<rparr>"
  have a: "noSurf (userLoginPost exampleApp) exampleLogin exampleWorld
           = userLoginPost exampleApp ?r ?w"
    by (rule noSurf_accepts [OF exampleLogin_facts(6) exampleLogin_facts(7) exampleLogin_facts(8)])
  have d: "decodePostForm_userLoginForm ?r = Inr exampleForm"
    by (simp only: decodePostForm_userLoginForm_WithValue exampleLogin_facts(1))
  have del: "sessionToken ?w = [] \<or> storeDelete exampleApp (sessionToken ?w) = None"
    by (simp add: exampleWorld_session(1))
  have ent: "entropy ?w = ''0123456789abcdef0123456789ABCDEF''
                # [''fedcba9876543210FEDCBA9876543210'']"
    by (simp add: exampleWorld_session(2))
  have b: "userLoginPost exampleApp ?r ?w =
     Returned (?w\<lparr>sessionToken := ''0123456789abcdef0123456789ABCDEF'',
        entropy := [''fedcba9876543210FEDCBA9876543210''],
        sessionValues := (sessionValues ?w)(''authenticatedUserID'' \<mapsto> IntVal 1),
        resp := http_Redirect (resp ?w) ?r ''/snippet/create'' 303\<rparr>)"
    by (rule userLoginPost_success [OF d exampleLogin_facts(2) exampleLogin_facts(3)
          exampleLogin_facts(4) exampleLogin_facts(5) del ent])
  show ?thesis unfolding a b by simp
qed

lemma exampleLaterPost_facts:
  "Method exampleLaterPost \<notin> set safeMethods"
  "length (cookieToken exampleLaterPost) = tokenLength"
  "SameOrigin exampleLaterPost"
  "extractToken exampleLaterPost = cookieToken exampleLaterPost"
  "cookieToken exampleLaterPost = cookieToken exampleLogin"
  "extractToken exampleLaterPost = extractToken exampleLogin"
  by (simp_all add: exampleLaterPost_def exampleLogin_def safeMethods_def cookieToken_def
      tokenLength_def extractToken_def PostFormValue_def)

text \<open>
  C1, as the claim states it, fails. The login of \<open>exampleLogin\<close> through the CSRF handler
  succeeds and renews the session token, but issues no new CSRF cookie; the later POST
  \<open>exampleLaterPost\<close> carries the token of before the login, and the CSRF handler lets it
  through to the handler, which answers 200.
\<close>

theorem login_keeps_csrf_token_accepted:
  "didReturn (noSurf (userLoginPost exampleApp) exampleLogin exampleWorld)
   \<and> GetInt exampleAfterLogin ''authenticatedUserID'' = 1
   \<and> StatusCode (resp exampleAfterLogin) = Some 303
   \<and> sessionToken exampleAfterLogin \<noteq> sessionToken exampleWorld
   \<and> Header (resp exampleAfterLogin) ''Set-Cookie'' = None
   \<and> Method exampleLaterPost \<notin> set safeMethods
   \<and> cookieToken exampleLaterPost = cookieToken exampleLogin
   \<and> extractToken exampleLaterPost = extractToken exampleLogin
   \<and> noSurf exampleHandler exampleLaterPost (exampleAfterLogin\<lparr>resp := newResponseWriter\<rparr>)
       = exampleHandler
           (WithValue exampleLaterPost nosurfContextKey (StringVal (cookieToken exampleLaterPost)))
           (exampleAfterLogin\<lparr>resp := Header_Add ''Vary'' ''Cookie'' newResponseWriter\<rparr>)
   \<and> StatusCode (resp (outcomeWorld
         (noSurf exampleHandler exampleLaterPost (exampleAfterLogin\<lparr>resp := newResponseWriter\<rparr>))))
       = Some 200"
proof -
  have 1: "didReturn (noSurf (userLoginPost exampleApp) exampleLogin exampleWorld)"
    by (simp add: exampleAfterLogin_eq)
  have 2: "GetInt exampleAfterLogin ''authenticatedUserID'' = 1"
    by (simp add: exampleAfterLogin_def exampleAfterLogin_eq GetInt_def)
  have 3: "StatusCode (resp exampleAfterLogin) = Some 303"
    by (simp add: exampleAfterLogin_def exampleAfterLogin_eq StatusCode_http_Redirect
        Header_Add_def exampleWorld_fresh)
  have 4: "sessionToken exampleAfterLogin \<noteq> sessionToken exampleWorld"
    by (simp add: exampleAfterLogin_def exampleAfterLogin_eq exampleWorld_session(3))
  have h: "Header (resp exampleWorld) ''Set-Cookie'' = None"
    by (simp add: exampleWorld_def newResponseWriter_def)
  have 5: "Header (resp exampleAfterLogin) ''Set-Cookie'' = None"
    by (simp add: exampleAfterLogin_def exampleAfterLogin_eq Header_http_Redirect_other
        Header_Add_def h)
  have 9: "noSurf exampleHandler exampleLaterPost (exampleAfterLogin\<lparr>resp := newResponseWriter\<rparr>)
       = exampleHandler
           (WithValue exampleLaterPost nosurfContextKey (StringVal (cookieToken exampleLaterPost)))
           (exampleAfterLogin\<lparr>resp := Header_Add ''Vary'' ''Cookie'' newResponseWriter\<rparr>)"
    using noSurf_accepts [OF exampleLaterPost_facts(2) exampleLaterPost_facts(3)
        exampleLaterPost_facts(4), of exampleHandler "exampleAfterLogin\<lparr>resp := newResponseWriter\<rparr>"]
    by simp
  have 10: "StatusCode (resp (outcomeWorld
         (noSurf exampleHandler exampleLaterPost (exampleAfterLogin\<lparr>resp := newResponseWriter\<rparr>))))
       = Some 200"
    unfolding 9
    by (simp add: exampleHandler_def Write_def WriteHeader_def Header_Add_def
        newResponseWriter_def Let_def)
  show ?thesis
    by (intro conjI 1 2 3 4 5 exampleLaterPost_facts(1) exampleLaterPost_facts(5)
        exampleLaterPost_facts(6) 9 10)
qed

end
